theory Spec2Isabelle
  imports Main "HOL-Library.Word"
begin

section \<open>The interrupt dispatcher of sched/irq/irq\_dispatch.c\<close>

text \<open>
  The theory embeds \<open>irq_dispatch\<close> together with its two macros \<open>INCR_COUNT\<close> and
  \<open>CALL_VECTOR\<close>. The pre-processor switches become fields of a configuration record,
  so that one definition covers every build. The kernel tables the function reads and
  writes are fields of a state record; the functions it calls but does not define (the
  service routines, the entropy hook, the clocks, \<open>this_cpu\<close>, \<open>this_task\<close>) are
  fields of an environment record about which nothing is assumed unless a theorem says
  so. Besides the new state, every function returns the list of the memory accesses and
  calls it made, in program order.
\<close>

subsection \<open>Data\<close>

text \<open>
  \<open>int irq\<close> is a 32-bit integer, kept as its bit pattern: its value is \<open>sint irq\<close>,
  and \<open>(unsigned)irq\<close> is \<open>unat irq\<close>.
  Pointers to data are addresses, \<open>NULL\<close> being address 0.
\<close>

type_synonym c_int = "32 word"
type_synonym voidptr = nat
type_synonym tcb_ptr = nat

definition NULL :: voidptr where
  "NULL = 0"

text \<open>
  A value of type \<open>xcpt_t\<close> that is not null: the address of \<open>irq_unexpected_isr\<close> or
  of some other service routine. The null function pointer is \<open>None\<close> in the
  \<open>handler\<close> field below.
\<close>

datatype xcpt_t = irq_unexpected_isr | Isr nat

text \<open>The POSIX \<open>struct timespec\<close>, seconds and nanoseconds.\<close>

record timespec =
  tv_sec :: int
  tv_nsec :: int

text \<open>
  Modelled from the spec: \<open>struct irq_info_s\<close> is declared in irq/irq.h, which is not
  among the sources. The fields are those of the spec's vector slot: the handler, its
  argument, the count (one 64-bit word with \<open>CONFIG_HAVE_LONG_LONG\<close>, else the two
  32-bit words \<open>mscount\<close> and \<open>lscount\<close>) and the longest time seen, in nanoseconds.
  The record has all three count fields; a build touches only those it declares.
  \<open>time\<close> is compared with \<open>tv_nsec\<close> as an integer: a \<open>tv_nsec\<close> lies between 0 and
  999999999, which every integer type of 32 bits holds.
\<close>

record irq_info_s =
  handler :: "xcpt_t option"
  arg :: voidptr
  count :: "64 word"
  mscount :: "32 word"
  lscount :: "32 word"
  time :: int

text \<open>The pre-processor symbols the file tests, and the constant table \<open>g_irqmap\<close>.\<close>

record config =
  NR_IRQS :: nat
  CONFIG_ARCH_MINIMAL_VECTORTABLE :: bool
  CONFIG_ARCH_NUSER_INTERRUPTS :: nat
  g_irqmap :: "nat list"
  CONFIG_SCHED_IRQMONITOR :: bool
  CONFIG_HAVE_LONG_LONG :: bool
  CONFIG_SCHED_TICKLESS :: bool
  CONFIG_SCHED_CRITMONITOR :: bool
  CONFIG_SCHED_IRQMONITOR_GETTIME :: bool
  CONFIG_CRYPTO_RANDOM_POOL_COLLECT_IRQ_RANDOMNESS :: bool

text \<open>
  The memory the dispatcher works on: the vector table, the per-CPU running-task array,
  and \<open>world\<close>, everything else that the called functions read and change (timers,
  the scheduler's lists, the entropy pool).
\<close>

record 'w kstate =
  g_irqvector :: "irq_info_s list"
  g_running_tasks :: "tcb_ptr list"
  world :: 'w

subsection \<open>The trace\<close>

datatype field = F_handler | F_arg | F_count | F_mscount | F_lscount | F_time

text \<open>
  \<open>Load f n\<close> and \<open>Store f n\<close> are a read and a write of \<open>g_irqvector[n].f\<close>; the other
  events are the read of \<open>g_irqmap[n]\<close>, the calls, and the final assignment to
  \<open>g_running_tasks[cpu]\<close>. \<open>Call_up_critmon_convert\<close> and
  \<open>Call_clock_timespec_subtract\<close> carry the delta they produced as their last argument.
\<close>

datatype event =
    Load_irqmap nat
  | Load field nat
  | Store field nat
  | Call_add_irq_randomness c_int
  | Call_up_critmon_gettime
  | Call_clock_systimespec
  | Call_vector xcpt_t c_int voidptr voidptr
  | Call_up_critmon_convert "32 word" timespec
  | Call_clock_timespec_subtract timespec timespec timespec
  | Store_running_task nat tcb_ptr

text \<open>
  A service routine may never come back (the usual \<open>irq_unexpected_isr\<close> halts the
  system). \<open>No_return s\<close> is a dispatch whose routine did not return, \<open>s\<close> being the
  memory at the moment the routine was entered.
\<close>

datatype 's outcome = Returned 's | No_return 's

subsection \<open>The functions the dispatcher calls\<close>

text \<open>
  \<open>exec_vector v irq context arg s\<close> is the effect of the call \<open>v(irq, context, arg)\<close>
  in memory \<open>s\<close>, \<open>None\<close> when the call does not return.

  The last three fields say what the machine does when \<open>CALL_VECTOR\<close> or the final
  assignment index a table past its end, which C leaves undefined: \<open>oob_load_time n s\<close>
  is the value found where \<open>g_irqvector[n].time\<close> would lie, \<open>oob_store_time n v s\<close>
  is the memory after \<open>v\<close> has been stored there, and \<open>oob_store_running_task c t s\<close>
  the memory after \<open>t\<close> has been stored where \<open>g_running_tasks[c]\<close> would lie.
\<close>

record 'w env =
  exec_vector :: "xcpt_t \<Rightarrow> c_int \<Rightarrow> voidptr \<Rightarrow> voidptr \<Rightarrow> 'w kstate \<Rightarrow> 'w kstate option"
  add_irq_randomness :: "c_int \<Rightarrow> 'w kstate \<Rightarrow> 'w kstate"
  up_critmon_gettime :: "'w kstate \<Rightarrow> 32 word \<times> 'w kstate"
  up_critmon_convert :: "32 word \<Rightarrow> timespec"
  clock_systimespec :: "'w kstate \<Rightarrow> timespec \<times> 'w kstate"
  clock_timespec_subtract :: "timespec \<Rightarrow> timespec \<Rightarrow> timespec"
  this_cpu :: "'w kstate \<Rightarrow> nat"
  this_task :: "'w kstate \<Rightarrow> tcb_ptr"
  oob_load_time :: "nat \<Rightarrow> 'w kstate \<Rightarrow> int"
  oob_store_time :: "nat \<Rightarrow> int \<Rightarrow> 'w kstate \<Rightarrow> 'w kstate"
  oob_store_running_task :: "nat \<Rightarrow> tcb_ptr \<Rightarrow> 'w kstate \<Rightarrow> 'w kstate"

subsection \<open>The macros\<close>

definition HAVE_PLATFORM_GETTIME :: "config \<Rightarrow> bool" where
  "HAVE_PLATFORM_GETTIME cfg \<longleftrightarrow>
     CONFIG_SCHED_IRQMONITOR cfg \<and>
     (\<not> CONFIG_SCHED_TICKLESS cfg \<or> CONFIG_SCHED_CRITMONITOR cfg \<or>
      CONFIG_SCHED_IRQMONITOR_GETTIME cfg)"

definition slot_update :: "nat \<Rightarrow> (irq_info_s \<Rightarrow> irq_info_s) \<Rightarrow> 'w kstate \<Rightarrow> 'w kstate" where
  "slot_update ndx f s = s\<lparr>g_irqvector := (g_irqvector s)[ndx := f (g_irqvector s ! ndx)]\<rparr>"

text \<open>
  \<open>INCR_COUNT(ndx)\<close>. Both call sites are guarded (\<open>irq < NR_IRQS\<close>, or
  \<open>ndx < CONFIG_ARCH_NUSER_INTERRUPTS\<close>), so \<open>ndx\<close> is a slot of a table of the declared
  size. The two-word form pre-increments \<open>lscount\<close> and carries into \<open>mscount\<close> when
  the result is 0.
\<close>

definition INCR_COUNT :: "config \<Rightarrow> nat \<Rightarrow> 'w kstate \<Rightarrow> event list \<times> 'w kstate" where
  "INCR_COUNT cfg ndx s =
     (if \<not> CONFIG_SCHED_IRQMONITOR cfg then ([], s)
      else if CONFIG_HAVE_LONG_LONG cfg then
        ([Load F_count ndx, Store F_count ndx],
         slot_update ndx (\<lambda>v. v\<lparr>count := count v + 1\<rparr>) s)
      else
        (let ls = lscount (g_irqvector s ! ndx) + 1;
             s1 = slot_update ndx (\<lambda>v. v\<lparr>lscount := ls\<rparr>) s
         in if ls = 0
            then ([Load F_lscount ndx, Store F_lscount ndx, Load F_mscount ndx, Store F_mscount ndx],
                  slot_update ndx (\<lambda>v. v\<lparr>mscount := mscount v + 1\<rparr>) s1)
            else ([Load F_lscount ndx, Store F_lscount ndx], s1)))"

text \<open>
  The last statement of both monitoring forms of \<open>CALL_VECTOR\<close>:
  \<open>if (delta.tv_nsec > g_irqvector[ndx].time) g_irqvector[ndx].time = delta.tv_nsec\<close>.
  The macro does not compare \<open>ndx\<close> with the size of the table.
\<close>

definition update_time :: "'w env \<Rightarrow> nat \<Rightarrow> int \<Rightarrow> 'w kstate \<Rightarrow> event list \<times> 'w kstate" where
  "update_time env ndx nsec s =
     (if ndx < length (g_irqvector s) then
        (if nsec > time (g_irqvector s ! ndx)
         then ([Load F_time ndx, Store F_time ndx], slot_update ndx (\<lambda>v. v\<lparr>time := nsec\<rparr>) s)
         else ([Load F_time ndx], s))
      else
        (if nsec > oob_load_time env ndx s
         then ([Load F_time ndx, Store F_time ndx], oob_store_time env ndx nsec s)
         else ([Load F_time ndx], s)))"

definition CALL_VECTOR ::
  "config \<Rightarrow> 'w env \<Rightarrow> nat \<Rightarrow> xcpt_t \<Rightarrow> c_int \<Rightarrow> voidptr \<Rightarrow> voidptr \<Rightarrow> 'w kstate
     \<Rightarrow> event list \<times> 'w kstate outcome" where
  "CALL_VECTOR cfg env ndx vector irq context a s =
     (if \<not> CONFIG_SCHED_IRQMONITOR cfg then
        (case exec_vector env vector irq context a s of
           None \<Rightarrow> ([Call_vector vector irq context a], No_return s)
         | Some s1 \<Rightarrow> ([Call_vector vector irq context a], Returned s1))
      else if HAVE_PLATFORM_GETTIME cfg then
        (let (start, s1) = up_critmon_gettime env s
         in case exec_vector env vector irq context a s1 of
              None \<Rightarrow> ([Call_up_critmon_gettime, Call_vector vector irq context a], No_return s1)
            | Some s2 \<Rightarrow>
                (let (stop, s3) = up_critmon_gettime env s2;
                     elapsed = stop - start;
                     delta = up_critmon_convert env elapsed;
                     (ev, s4) = update_time env ndx (tv_nsec delta) s3
                 in ([Call_up_critmon_gettime, Call_vector vector irq context a,
                      Call_up_critmon_gettime, Call_up_critmon_convert elapsed delta] @ ev,
                     Returned s4)))
      else
        (let (start, s1) = clock_systimespec env s
         in case exec_vector env vector irq context a s1 of
              None \<Rightarrow> ([Call_clock_systimespec, Call_vector vector irq context a], No_return s1)
            | Some s2 \<Rightarrow>
                (let (end, s3) = clock_systimespec env s2;
                     delta = clock_timespec_subtract env end start;
                     (ev, s4) = update_time env ndx (tv_nsec delta) s3
                 in ([Call_clock_systimespec, Call_vector vector irq context a,
                      Call_clock_systimespec, Call_clock_timespec_subtract end start delta] @ ev,
                     Returned s4))))"

subsection \<open>irq\_dispatch\<close>

text \<open>
  The two identical blocks that test \<open>g_irqvector[ndx].handler\<close> and, when it is not
  null, load \<open>vector\<close> and \<open>arg\<close> from the slot; otherwise both keep their values.
\<close>

definition load_vector ::
  "nat \<Rightarrow> xcpt_t \<times> voidptr \<Rightarrow> 'w kstate \<Rightarrow> event list \<times> (xcpt_t \<times> voidptr)" where
  "load_vector ndx va s =
     (case handler (g_irqvector s ! ndx) of
        None \<Rightarrow> ([Load F_handler ndx], va)
      | Some h \<Rightarrow> ([Load F_handler ndx, Load F_handler ndx, Load F_arg ndx],
                   (h, arg (g_irqvector s ! ndx))))"

text \<open>
  The first half of the function, up to the \<open>#endif\<close> of \<open>#if NR_IRQS > 0\<close>: the
  values of \<open>vector\<close>, \<open>arg\<close> and \<open>ndx\<close> there, and the memory after \<open>INCR_COUNT\<close>.
\<close>

definition irq_resolve ::
  "config \<Rightarrow> c_int \<Rightarrow> 'w kstate \<Rightarrow> event list \<times> (xcpt_t \<times> voidptr) \<times> nat \<times> 'w kstate" where
  "irq_resolve cfg irq s =
     (let va = (irq_unexpected_isr, NULL);
          ndx = unat irq
      in if 0 < NR_IRQS cfg \<and> unat irq < NR_IRQS cfg then
           (if CONFIG_ARCH_MINIMAL_VECTORTABLE cfg then
              (let ndx = g_irqmap cfg ! unat irq
               in if ndx < CONFIG_ARCH_NUSER_INTERRUPTS cfg then
                    (let (ev1, va) = load_vector ndx va s;
                         (ev2, s1) = INCR_COUNT cfg ndx s
                     in (Load_irqmap (unat irq) # ev1 @ ev2, va, ndx, s1))
                  else ([Load_irqmap (unat irq)], va, ndx, s))
            else
              (let (ev1, va) = load_vector ndx va s;
                   (ev2, s1) = INCR_COUNT cfg ndx s
               in (ev1 @ ev2, va, ndx, s1)))
         else ([], va, ndx, s))"

text \<open>
  The final assignment \<open>g_running_tasks[this_cpu()] = this_task()\<close>.
\<close>

definition record_running_task :: "'w env \<Rightarrow> 'w kstate \<Rightarrow> event list \<times> 'w kstate" where
  "record_running_task env s =
     (let cpu = this_cpu env s;
          tcb = this_task env s
      in ([Store_running_task cpu tcb],
          if cpu < length (g_running_tasks s)
          then s\<lparr>g_running_tasks := (g_running_tasks s)[cpu := tcb]\<rparr>
          else oob_store_running_task env cpu tcb s))"

text \<open>
  The block under \<open>CONFIG_CRYPTO_RANDOM_POOL_COLLECT_IRQ_RANDOMNESS\<close>, then the whole
  function.
\<close>

definition entropy_tap :: "config \<Rightarrow> 'w env \<Rightarrow> c_int \<Rightarrow> 'w kstate \<Rightarrow> event list \<times> 'w kstate" where
  "entropy_tap cfg env irq s =
     (if CONFIG_CRYPTO_RANDOM_POOL_COLLECT_IRQ_RANDOMNESS cfg
      then ([Call_add_irq_randomness irq], add_irq_randomness env irq s)
      else ([], s))"

definition irq_dispatch ::
  "config \<Rightarrow> 'w env \<Rightarrow> c_int \<Rightarrow> voidptr \<Rightarrow> 'w kstate \<Rightarrow> event list \<times> 'w kstate outcome" where
  "irq_dispatch cfg env irq context s =
     (let (ev1, (vector, a), ndx, s1) = irq_resolve cfg irq s;
          (ev2, s2) = entropy_tap cfg env irq s1;
          (ev3, r) = CALL_VECTOR cfg env ndx vector irq context a s2
      in case r of
           No_return sx \<Rightarrow> (ev1 @ ev2 @ ev3, No_return sx)
         | Returned s3 \<Rightarrow>
             (let (ev4, s4) = record_running_task env s3
              in (ev1 @ ev2 @ ev3 @ ev4, Returned s4)))"

subsection \<open>A sequence of dispatches\<close>

text \<open>
  The architecture code calls \<open>irq_dispatch\<close> once per interrupt. \<open>dispatch_all\<close> runs
  the dispatches of a list of \<open>(irq, context)\<close> pairs one after the other, each in the
  memory the previous one left, and stops at a routine that does not return.
  \<open>dispatch_states\<close> lists the memory after each dispatch that returned.
\<close>

fun dispatch_all ::
  "config \<Rightarrow> 'w env \<Rightarrow> (c_int \<times> voidptr) list \<Rightarrow> 'w kstate \<Rightarrow> event list \<times> 'w kstate outcome" where
  "dispatch_all cfg env [] s = ([], Returned s)"
| "dispatch_all cfg env (ic # ics) s =
     (case irq_dispatch cfg env (fst ic) (snd ic) s of
        (tr, No_return sx) \<Rightarrow> (tr, No_return sx)
      | (tr, Returned s1) \<Rightarrow>
          (case dispatch_all cfg env ics s1 of (tr2, r) \<Rightarrow> (tr @ tr2, r)))"

fun dispatch_states :: "config \<Rightarrow> 'w env \<Rightarrow> (c_int \<times> voidptr) list \<Rightarrow> 'w kstate \<Rightarrow> 'w kstate list" where
  "dispatch_states cfg env [] s = []"
| "dispatch_states cfg env (ic # ics) s =
     (case irq_dispatch cfg env (fst ic) (snd ic) s of
        (tr, No_return sx) \<Rightarrow> []
      | (tr, Returned s1) \<Rightarrow> s1 # dispatch_states cfg env ics s1)"

subsection \<open>Vocabulary of the properties\<close>

text \<open>
  \<open>resolves_to cfg irq n\<close>: the dispatcher takes \<open>irq\<close> to the table index \<open>n\<close> and
  reaches the handler test and \<open>INCR_COUNT(n)\<close>: \<open>irq\<close> is below \<open>NR_IRQS\<close> and, with
  the minimal vector table, \<open>g_irqmap[irq] = n\<close> is below
  \<open>CONFIG_ARCH_NUSER_INTERRUPTS\<close>. \<open>unmapped cfg irq\<close>: \<open>irq\<close> is below \<open>NR_IRQS\<close> and
  its map entry is not a table index. \<open>g_irqmap\<close> is declared with \<open>NR_IRQS\<close> entries;
  both predicates ask for the entry to exist.
\<close>

definition resolves_to :: "config \<Rightarrow> c_int \<Rightarrow> nat \<Rightarrow> bool" where
  "resolves_to cfg irq n \<longleftrightarrow>
     unat irq < NR_IRQS cfg \<and>
     (if CONFIG_ARCH_MINIMAL_VECTORTABLE cfg
      then unat irq < length (g_irqmap cfg) \<and> g_irqmap cfg ! unat irq = n \<and>
           n < CONFIG_ARCH_NUSER_INTERRUPTS cfg
      else n = unat irq)"

definition unmapped :: "config \<Rightarrow> c_int \<Rightarrow> bool" where
  "unmapped cfg irq \<longleftrightarrow>
     CONFIG_ARCH_MINIMAL_VECTORTABLE cfg \<and> unat irq < NR_IRQS cfg \<and>
     unat irq < length (g_irqmap cfg) \<and>
     CONFIG_ARCH_NUSER_INTERRUPTS cfg \<le> g_irqmap cfg ! unat irq"

fun is_Call_vector :: "event \<Rightarrow> bool" where
  "is_Call_vector (Call_vector v i c a) = True"
| "is_Call_vector e = False"

fun is_Call_add_irq_randomness :: "event \<Rightarrow> bool" where
  "is_Call_add_irq_randomness (Call_add_irq_randomness i) = True"
| "is_Call_add_irq_randomness e = False"

text \<open>A write of a count field (\<open>count\<close>, \<open>lscount\<close> or \<open>mscount\<close>) of some slot.\<close>

fun is_count_store :: "event \<Rightarrow> bool" where
  "is_count_store (Store f m) = (f = F_count \<or> f = F_lscount \<or> f = F_mscount)"
| "is_count_store e = False"

text \<open>
  Three classes of events, after the part of the dispatcher that produces them: the
  table lookup with \<open>INCR_COUNT\<close>, the timing probe of \<open>CALL_VECTOR(n, ...)\<close> around
  the call, and the final assignment.
\<close>

fun is_lookup :: "event \<Rightarrow> bool" where
  "is_lookup (Load_irqmap n) = True"
| "is_lookup (Load f n) = (f \<noteq> F_time)"
| "is_lookup (Store f n) = (f = F_count \<or> f = F_lscount \<or> f = F_mscount)"
| "is_lookup e = False"

fun is_probe :: "nat \<Rightarrow> event \<Rightarrow> bool" where
  "is_probe n Call_up_critmon_gettime = True"
| "is_probe n Call_clock_systimespec = True"
| "is_probe n (Call_up_critmon_convert e d) = True"
| "is_probe n (Call_clock_timespec_subtract e b d) = True"
| "is_probe n (Load f m) = (f = F_time \<and> m = n)"
| "is_probe n (Store f m) = (f = F_time \<and> m = n)"
| "is_probe n e = False"

fun is_Store_running_task :: "event \<Rightarrow> bool" where
  "is_Store_running_task (Store_running_task c t) = True"
| "is_Store_running_task e = False"

text \<open>A read or a write of any field of any vector slot.\<close>

fun is_slot_access :: "event \<Rightarrow> bool" where
  "is_slot_access (Load f n) = True"
| "is_slot_access (Store f n) = True"
| "is_slot_access e = False"

text \<open>The \<open>tv_nsec\<close> of the delta an event measured, and those of a whole trace in order.\<close>

fun delta_nsec :: "event \<Rightarrow> int option" where
  "delta_nsec (Call_up_critmon_convert e d) = Some (tv_nsec d)"
| "delta_nsec (Call_clock_timespec_subtract e b d) = Some (tv_nsec d)"
| "delta_nsec e = None"

definition observed_nsec :: "event list \<Rightarrow> int list" where
  "observed_nsec tr = List.map_filter delta_nsec tr"

text \<open>
  The value of the count of a slot: the 64-bit word itself, or
  \<open>mscount * 2^32 + lscount\<close>, as a natural number.
\<close>

definition logical_count :: "config \<Rightarrow> irq_info_s \<Rightarrow> nat" where
  "logical_count cfg v =
     (if CONFIG_HAVE_LONG_LONG cfg then unat (count v)
      else unat (mscount v) * 2 ^ 32 + unat (lscount v))"

text \<open>
  The single-writer contract of the spec for the counters and the time: whatever the
  dispatcher calls leaves the size of the table and the count and time fields of slot
  \<open>n\<close> as they are. \<open>keeps_accounting n s s'\<close> compares two memories,
  \<open>accounting_untouched env n\<close> asks it of every function of the environment.
\<close>

definition keeps_accounting :: "nat \<Rightarrow> 'w kstate \<Rightarrow> 'w kstate \<Rightarrow> bool" where
  "keeps_accounting n s s' \<longleftrightarrow>
     length (g_irqvector s') = length (g_irqvector s) \<and>
     count (g_irqvector s' ! n) = count (g_irqvector s ! n) \<and>
     mscount (g_irqvector s' ! n) = mscount (g_irqvector s ! n) \<and>
     lscount (g_irqvector s' ! n) = lscount (g_irqvector s ! n) \<and>
     time (g_irqvector s' ! n) = time (g_irqvector s ! n)"

definition accounting_untouched :: "'w env \<Rightarrow> nat \<Rightarrow> bool" where
  "accounting_untouched env n \<longleftrightarrow>
     (\<forall>v i c a s s'. exec_vector env v i c a s = Some s' \<longrightarrow> keeps_accounting n s s') \<and>
     (\<forall>i s. keeps_accounting n s (add_irq_randomness env i s)) \<and>
     (\<forall>s. keeps_accounting n s (snd (up_critmon_gettime env s))) \<and>
     (\<forall>s. keeps_accounting n s (snd (clock_systimespec env s))) \<and>
     (\<forall>m v s. keeps_accounting n s (oob_store_time env m v s)) \<and>
     (\<forall>c t s. keeps_accounting n s (oob_store_running_task env c t s))"

text \<open>
  The memory in which \<open>CALL_VECTOR\<close>, started in \<open>s\<close>, enters the routine: \<open>s\<close> itself,
  or \<open>s\<close> after the first reading of the clock in a build with
  \<open>CONFIG_SCHED_IRQMONITOR\<close>.
\<close>

definition vector_entry :: "config \<Rightarrow> 'w env \<Rightarrow> 'w kstate \<Rightarrow> 'w kstate" where
  "vector_entry cfg env s =
     (if \<not> CONFIG_SCHED_IRQMONITOR cfg then s
      else if HAVE_PLATFORM_GETTIME cfg then snd (up_critmon_gettime env s)
      else snd (clock_systimespec env s))"

text \<open>
  The memory a dispatch leaves behind: the one it returns in, or the one in which the
  routine that never returns was entered.
\<close>

fun final_state :: "'s outcome \<Rightarrow> 's" where
  "final_state (Returned s) = s"
| "final_state (No_return s) = s"

fun returned :: "'s outcome \<Rightarrow> bool" where
  "returned (Returned s) = True"
| "returned (No_return s) = False"

subsection \<open>The scenarios of the specification\<close>

text \<open>
  A table of 16 empty slots with a handler and the argument 77 installed in slot 5,
  one CPU, and a world that is a tick counter. Every routine takes 250 ticks, except
  \<open>Isr 0\<close>, which never returns, and \<open>irq_unexpected_isr\<close>, which takes 100; a tick is
  a nanosecond, the running task is named by the tick count, a load past the end of
  the table finds 0 and a store past the end of a table changes nothing.
\<close>

definition empty_slot :: irq_info_s where
  "empty_slot = \<lparr>handler = None, arg = NULL, count = 0, mscount = 0, lscount = 0, time = 0\<rparr>"

definition table16 :: "irq_info_s list" where
  "table16 = (replicate 16 empty_slot)[5 := empty_slot\<lparr>handler := Some (Isr 1), arg := 77\<rparr>]"

definition state16 :: "nat kstate" where
  "state16 = \<lparr>g_irqvector = table16, g_running_tasks = [0], world = 100\<rparr>"

definition tick_env :: "nat env" where
  "tick_env =
     \<lparr>exec_vector = (\<lambda>v i c a s.
         case v of irq_unexpected_isr \<Rightarrow> Some (s\<lparr>world := world s + 100\<rparr>)
         | Isr k \<Rightarrow> if k = 0 then None else Some (s\<lparr>world := world s + 250\<rparr>)),
      add_irq_randomness = (\<lambda>i s. s),
      up_critmon_gettime = (\<lambda>s. (of_nat (world s), s)),
      up_critmon_convert = (\<lambda>e. \<lparr>tv_sec = 0, tv_nsec = uint e\<rparr>),
      clock_systimespec = (\<lambda>s. (\<lparr>tv_sec = 0, tv_nsec = int (world s)\<rparr>, s)),
      clock_timespec_subtract = (\<lambda>e b. \<lparr>tv_sec = tv_sec e - tv_sec b, tv_nsec = tv_nsec e - tv_nsec b\<rparr>),
      this_cpu = (\<lambda>s. 0),
      this_task = (\<lambda>s. world s),
      oob_load_time = (\<lambda>n s. 0),
      oob_store_time = (\<lambda>n v s. s),
      oob_store_running_task = (\<lambda>c t s. s)\<rparr>"

text \<open>
  The build of scenarios 1 and 2: 16 interrupts, identity mapping, monitoring with a
  64-bit count and the platform timer, entropy collection.
\<close>

definition direct16 :: config where
  "direct16 =
     \<lparr>NR_IRQS = 16, CONFIG_ARCH_MINIMAL_VECTORTABLE = False,
      CONFIG_ARCH_NUSER_INTERRUPTS = 16, g_irqmap = [],
      CONFIG_SCHED_IRQMONITOR = True, CONFIG_HAVE_LONG_LONG = True,
      CONFIG_SCHED_TICKLESS = False, CONFIG_SCHED_CRITMONITOR = False,
      CONFIG_SCHED_IRQMONITOR_GETTIME = False,
      CONFIG_CRYPTO_RANDOM_POOL_COLLECT_IRQ_RANDOMNESS = True\<rparr>"

text \<open>
  The build of scenario 3: the minimal vector table with four slots,
  \<open>g_irqmap[7] = 2\<close> and every other entry, \<open>g_irqmap[8]\<close> among them, equal to
  \<open>CONFIG_ARCH_NUSER_INTERRUPTS\<close>.
\<close>

definition minimal16 :: config where
  "minimal16 =
     direct16\<lparr>CONFIG_ARCH_MINIMAL_VECTORTABLE := True, CONFIG_ARCH_NUSER_INTERRUPTS := 4,
              g_irqmap := (replicate 16 4)[7 := 2]\<rparr>"

definition table4 :: "irq_info_s list" where
  "table4 = (replicate 4 empty_slot)[2 := empty_slot\<lparr>handler := Some (Isr 1), arg := 77\<rparr>]"

definition state4 :: "nat kstate" where
  "state4 = \<lparr>g_irqvector = table4, g_running_tasks = [0], world = 100\<rparr>"

text \<open>
  Slot 3 with a handler that never returns, slot 5 one interrupt before the carry of
  the two-word count, and the build with the two-word count and the system clock.
\<close>

definition state16_stuck :: "nat kstate" where
  "state16_stuck = state16\<lparr>g_irqvector := table16[3 := empty_slot\<lparr>handler := Some (Isr 0)\<rparr>]\<rparr>"

definition state16_carry :: "nat kstate" where
  "state16_carry =
     state16\<lparr>g_irqvector := table16[5 := empty_slot\<lparr>handler := Some (Isr 1), lscount := 0xFFFFFFFF\<rparr>]\<rparr>"

definition two_word16 :: config where
  "two_word16 = direct16\<lparr>CONFIG_HAVE_LONG_LONG := False, CONFIG_SCHED_TICKLESS := True\<rparr>"

text \<open>
  Slot 5 with both words of the count at their largest value, and an environment whose
  routines take 250 ticks before tick 300 and 100 ticks afterwards.
\<close>

definition state16_full :: "nat kstate" where
  "state16_full =
     state16\<lparr>g_irqvector := table16[5 := empty_slot\<lparr>handler := Some (Isr 1),
                 mscount := 0xFFFFFFFF, lscount := 0xFFFFFFFF\<rparr>]\<rparr>"

definition slow_then_fast :: "nat env" where
  "slow_then_fast = tick_env\<lparr>exec_vector := (\<lambda>v i c a s.
       Some (s\<lparr>world := world s + (if world s < 300 then 250 else 100)\<rparr>))\<rparr>"

text \<open>
  An environment whose entropy hook takes 1000 ticks per unit of the interrupt number
  it is given, so that the hook leaves its mark on the tick count.
\<close>

definition pool_env :: "nat env" where
  "pool_env = tick_env\<lparr>add_irq_randomness := (\<lambda>i s. s\<lparr>world := world s + 1000 * unat i\<rparr>)\<rparr>"

lemmas model_defs = irq_dispatch_def irq_resolve_def CALL_VECTOR_def update_time_def
  INCR_COUNT_def load_vector_def entropy_tap_def record_running_task_def slot_update_def
  HAVE_PLATFORM_GETTIME_def NULL_def Let_def

lemmas scenario16_defs = direct16_def tick_env_def state16_def table16_def empty_slot_def

section \<open>Properties\<close>

subsection \<open>The two halves of a dispatch and the shape of its trace\<close>

lemma irq_resolve_out:
  "\<not> unat irq < NR_IRQS cfg \<Longrightarrow>
   irq_resolve cfg irq s = ([], (irq_unexpected_isr, NULL), unat irq, s)"
  by (simp add: irq_resolve_def)

lemma irq_resolve_unmapped:
  "unmapped cfg irq \<Longrightarrow>
   irq_resolve cfg irq s =
     ([Load_irqmap (unat irq)], (irq_unexpected_isr, NULL), g_irqmap cfg ! unat irq, s)"
  by (simp add: irq_resolve_def unmapped_def)

lemma irq_resolve_slot:
  "resolves_to cfg irq n \<Longrightarrow>
   irq_resolve cfg irq s =
     ((if CONFIG_ARCH_MINIMAL_VECTORTABLE cfg then [Load_irqmap (unat irq)] else []) @
        fst (load_vector n (irq_unexpected_isr, NULL) s) @ fst (INCR_COUNT cfg n s),
      snd (load_vector n (irq_unexpected_isr, NULL) s), n, snd (INCR_COUNT cfg n s))"
  by (auto simp: irq_resolve_def resolves_to_def Let_def split: prod.splits if_splits)

lemma irq_dispatch_returned:
  assumes "irq_resolve cfg irq s = (ev1, (v, a), ndx, s1)"
    and "entropy_tap cfg env irq s1 = (ev2, s2)"
    and "CALL_VECTOR cfg env ndx v irq ctx a s2 = (ev3, Returned s3)"
  shows "irq_dispatch cfg env irq ctx s =
    (ev1 @ ev2 @ ev3 @ fst (record_running_task env s3),
     Returned (snd (record_running_task env s3)))"
  using assms by (simp add: irq_dispatch_def split: prod.splits)

lemma irq_dispatch_no_return:
  assumes "irq_resolve cfg irq s = (ev1, (v, a), ndx, s1)"
    and "entropy_tap cfg env irq s1 = (ev2, s2)"
    and "CALL_VECTOR cfg env ndx v irq ctx a s2 = (ev3, No_return sx)"
  shows "irq_dispatch cfg env irq ctx s = (ev1 @ ev2 @ ev3, No_return sx)"
  using assms by (simp add: irq_dispatch_def)

lemma load_vector_events: "\<forall>e\<in>set (fst (load_vector n va s)). is_lookup e"
  by (simp add: load_vector_def split: option.splits)

lemma INCR_COUNT_events: "\<forall>e\<in>set (fst (INCR_COUNT cfg n s)). is_lookup e"
  by (simp add: INCR_COUNT_def Let_def)

lemma irq_resolve_events: "\<forall>e\<in>set (fst (irq_resolve cfg irq s)). is_lookup e"
  using load_vector_events [of "unat irq" "(irq_unexpected_isr, NULL)" s]
    load_vector_events [of "g_irqmap cfg ! unat irq" "(irq_unexpected_isr, NULL)" s]
    INCR_COUNT_events [of cfg "unat irq" s]
    INCR_COUNT_events [of cfg "g_irqmap cfg ! unat irq" s]
  by (auto simp: irq_resolve_def Let_def split: prod.splits)

lemma update_time_events: "\<forall>e\<in>set (fst (update_time env n d s)). is_probe n e"
  by (simp add: update_time_def)

lemma CALL_VECTOR_shape:
  "\<exists>pre post. fst (CALL_VECTOR cfg env n v irq ctx a s) = pre @ Call_vector v irq ctx a # post \<and>
      (\<forall>e\<in>set pre. is_probe n e) \<and> (\<forall>e\<in>set post. is_probe n e)"
proof (cases "CONFIG_SCHED_IRQMONITOR cfg")
  case False
  then have "fst (CALL_VECTOR cfg env n v irq ctx a s) = [] @ Call_vector v irq ctx a # []"
    by (simp add: CALL_VECTOR_def split: option.splits)
  then show ?thesis by (intro exI[of _ "[]"]) simp
next
  case mon: True
  show ?thesis
  proof (cases "HAVE_PLATFORM_GETTIME cfg")
    case True
    obtain start s1 where g: "up_critmon_gettime env s = (start, s1)" by (cases "up_critmon_gettime env s")
    show ?thesis
    proof (cases "exec_vector env v irq ctx a s1")
      case None
      with mon True g have "fst (CALL_VECTOR cfg env n v irq ctx a s) = [Call_up_critmon_gettime] @ Call_vector v irq ctx a # []"
        by (simp add: CALL_VECTOR_def)
      then show ?thesis by (intro exI[of _ "[Call_up_critmon_gettime]"] exI[of _ "[]"]) simp
    next
      case (Some s2)
      obtain stop s3 where g2: "up_critmon_gettime env s2 = (stop, s3)" by (cases "up_critmon_gettime env s2")
      let ?d = "up_critmon_convert env (stop - start)"
      from mon True g Some g2 have "fst (CALL_VECTOR cfg env n v irq ctx a s) =
          [Call_up_critmon_gettime] @ Call_vector v irq ctx a #
          ([Call_up_critmon_gettime, Call_up_critmon_convert (stop - start) ?d] @ fst (update_time env n (tv_nsec ?d) s3))"
        by (simp add: CALL_VECTOR_def Let_def split: prod.splits)
      then show ?thesis using update_time_events [of env n "tv_nsec ?d" s3]
        by (intro exI[of _ "[Call_up_critmon_gettime]"] exI[of _ "[Call_up_critmon_gettime, Call_up_critmon_convert (stop - start) ?d] @ fst (update_time env n (tv_nsec ?d) s3)"]) simp
    qed
  next
    case False
    obtain start s1 where g: "clock_systimespec env s = (start, s1)" by (cases "clock_systimespec env s")
    show ?thesis
    proof (cases "exec_vector env v irq ctx a s1")
      case None
      with mon False g have "fst (CALL_VECTOR cfg env n v irq ctx a s) = [Call_clock_systimespec] @ Call_vector v irq ctx a # []"
        by (simp add: CALL_VECTOR_def)
      then show ?thesis by (intro exI[of _ "[Call_clock_systimespec]"] exI[of _ "[]"]) simp
    next
      case (Some s2)
      obtain stop s3 where g2: "clock_systimespec env s2 = (stop, s3)" by (cases "clock_systimespec env s2")
      let ?d = "clock_timespec_subtract env stop start"
      from mon False g Some g2 have "fst (CALL_VECTOR cfg env n v irq ctx a s) =
          [Call_clock_systimespec] @ Call_vector v irq ctx a #
          ([Call_clock_systimespec, Call_clock_timespec_subtract stop start ?d] @ fst (update_time env n (tv_nsec ?d) s3))"
        by (simp add: CALL_VECTOR_def Let_def split: prod.splits)
      then show ?thesis using update_time_events [of env n "tv_nsec ?d" s3]
        by (intro exI[of _ "[Call_clock_systimespec]"] exI[of _ "[Call_clock_systimespec, Call_clock_timespec_subtract stop start ?d] @ fst (update_time env n (tv_nsec ?d) s3)"]) simp
    qed
  qed
qed

lemma irq_dispatch_trace:
  assumes R: "irq_resolve cfg irq s = (ev1, (v, a), n, s1)"
  shows "\<exists>pre post tl. fst (irq_dispatch cfg env irq ctx s) =
           ev1 @ fst (entropy_tap cfg env irq s1) @ pre @ Call_vector v irq ctx a # post @ tl \<and>
         (\<forall>e\<in>set pre. is_probe n e) \<and> (\<forall>e\<in>set post. is_probe n e) \<and>
         (\<forall>e\<in>set tl. is_Store_running_task e)"
proof -
  obtain ev2 s2 where T: "entropy_tap cfg env irq s1 = (ev2, s2)"
    by (cases "entropy_tap cfg env irq s1")
  obtain ev3 r where C: "CALL_VECTOR cfg env n v irq ctx a s2 = (ev3, r)"
    by (cases "CALL_VECTOR cfg env n v irq ctx a s2")
  from CALL_VECTOR_shape [of cfg env n v irq ctx a s2] C
  obtain pre post where sh: "ev3 = pre @ Call_vector v irq ctx a # post"
    "\<forall>e\<in>set pre. is_probe n e" "\<forall>e\<in>set post. is_probe n e" by auto
  show ?thesis
  proof (cases r)
    case (Returned s3)
    with R T C have "fst (irq_dispatch cfg env irq ctx s) =
        ev1 @ ev2 @ ev3 @ fst (record_running_task env s3)"
      by (simp add: irq_dispatch_returned)
    with T sh show ?thesis
      by (intro exI[of _ pre] exI[of _ post] exI[of _ "fst (record_running_task env s3)"])
         (simp add: record_running_task_def Let_def)
  next
    case (No_return sx)
    with R T C have "fst (irq_dispatch cfg env irq ctx s) = ev1 @ ev2 @ ev3"
      by (simp add: irq_dispatch_no_return)
    with T sh show ?thesis
      by (intro exI[of _ pre] exI[of _ post] exI[of _ "[]"]) simp
  qed
qed

lemma filter_dispatch:
  assumes R: "irq_resolve cfg irq s = (ev1, (v, a), n, s1)"
    and probe: "\<And>e. is_probe n e \<Longrightarrow> \<not> P e"
    and tail: "\<And>e. is_Store_running_task e \<Longrightarrow> \<not> P e"
    and call: "P (Call_vector v irq ctx a)"
  shows "filter P (fst (irq_dispatch cfg env irq ctx s)) =
     filter P ev1 @ filter P (fst (entropy_tap cfg env irq s1)) @ [Call_vector v irq ctx a]"
proof -
  from irq_dispatch_trace [OF R, of env ctx]
  obtain pre post tl where tr: "fst (irq_dispatch cfg env irq ctx s) =
           ev1 @ fst (entropy_tap cfg env irq s1) @ pre @ Call_vector v irq ctx a # post @ tl"
    and cls: "\<forall>e\<in>set pre. is_probe n e" "\<forall>e\<in>set post. is_probe n e"
       "\<forall>e\<in>set tl. is_Store_running_task e" by blast
  from cls probe tail have "filter P pre = []" "filter P post = []" "filter P tl = []"
    by (auto simp: filter_empty_conv)
  with tr call show ?thesis by simp
qed

lemma lookup_not_call: "is_lookup e \<Longrightarrow> \<not> is_Call_vector e"
  by (cases e) simp_all

lemma probe_not_call: "is_probe n e \<Longrightarrow> \<not> is_Call_vector e"
  by (cases e) simp_all

lemma running_not_call: "is_Store_running_task e \<Longrightarrow> \<not> is_Call_vector e"
  by (cases e) simp_all

lemma tap_no_call: "filter is_Call_vector (fst (entropy_tap cfg env irq s)) = []"
  by (simp add: entropy_tap_def)

lemma calls_of_dispatch:
  assumes R: "irq_resolve cfg irq s = (ev1, (v, a), n, s1)"
  shows "filter is_Call_vector (fst (irq_dispatch cfg env irq ctx s)) = [Call_vector v irq ctx a]"
proof -
  from irq_resolve_events [of cfg irq s] R have "filter is_Call_vector ev1 = []"
    by (auto simp: filter_empty_conv dest: lookup_not_call)
  with filter_dispatch [OF R, of is_Call_vector ctx env] show ?thesis
    by (simp add: tap_no_call probe_not_call running_not_call)
qed

subsection \<open>Dispatch to a registered handler\<close>

text \<open>
  Claim C1. Let \<open>irq\<close> be below \<open>NR_IRQS\<close> and resolve to the index \<open>n\<close> (\<open>irq\<close>
  itself, or \<open>g_irqmap[irq]\<close> below \<open>CONFIG_ARCH_NUSER_INTERRUPTS\<close> with the minimal
  vector table), and let slot \<open>n\<close> exist and hold the non-null handler \<open>h\<close>. Then the
  trace of one \<open>irq_dispatch(irq, ctx)\<close> contains exactly one call of a service
  routine, and it is \<open>h(irq, ctx, g_irqvector[n].arg)\<close>, with the \<open>arg\<close> found in the
  slot when the dispatcher read it. This holds in every build and whatever the
  called functions do.
\<close>

theorem dispatch_calls_registered_handler_once:
  assumes "resolves_to cfg irq n" and "n < length (g_irqvector s)"
    and "handler (g_irqvector s ! n) = Some h"
  shows "filter is_Call_vector (fst (irq_dispatch cfg env irq ctx s)) =
           [Call_vector h irq ctx (arg (g_irqvector s ! n))]"
proof -
  from assms(3) have "snd (load_vector n (irq_unexpected_isr, NULL) s) = (h, arg (g_irqvector s ! n))"
    by (simp add: load_vector_def)
  with irq_resolve_slot [OF assms(1), of s]
  obtain ev1 s1 where "irq_resolve cfg irq s = (ev1, (h, arg (g_irqvector s ! n)), n, s1)"
    by simp
  then show ?thesis by (rule calls_of_dispatch)
qed

theorem dispatch_calls_registered_handler_once_witness:
  "resolves_to direct16 5 5 \<and> 5 < length (g_irqvector state16) \<and>
   handler (g_irqvector state16 ! 5) = Some (Isr 1) \<and>
   filter is_Call_vector (fst (irq_dispatch direct16 tick_env 5 9 state16)) =
     [Call_vector (Isr 1) 5 9 77]"
proof -
  have r: "resolves_to direct16 5 5"
    by (simp add: resolves_to_def direct16_def)
  have l: "5 < length (g_irqvector state16)"
    by (simp add: state16_def table16_def)
  have h: "handler (g_irqvector state16 ! 5) = Some (Isr 1)"
    by (simp add: state16_def table16_def)
  have a: "arg (g_irqvector state16 ! 5) = 77"
    by (simp add: state16_def table16_def)
  from dispatch_calls_registered_handler_once [OF r l h, of tick_env 9] r l h a
  show ?thesis by simp
qed

subsection \<open>The memory after a dispatch\<close>

lemma carry_nat:
  fixes a :: nat
  shows "((a + 1) mod 2 ^ 32) * 2 ^ 32 = (a * 2 ^ 32 + (2 ^ 32 - 1) + 1) mod 2 ^ 64"
proof -
  have "((a + 1) mod 2 ^ 32) * (2 ^ 32 :: nat) = ((a + 1) * 2 ^ 32) mod (2 ^ 32 * 2 ^ 32)"
    by (simp only: mod_mult_mult2)
  also have "(2 ^ 32 * 2 ^ 32 :: nat) = 2 ^ 64" by simp
  also have "(a + 1) * 2 ^ 32 = a * 2 ^ 32 + (2 ^ 32 - 1) + (1::nat)" by simp
  finally show ?thesis .
qed

lemma two_word_incr:
  fixes ls ms :: "32 word"
  shows "unat (if ls + 1 = 0 then ms + 1 else ms) * 2 ^ 32 + unat (ls + 1) =
         (unat ms * 2 ^ 32 + unat ls + 1) mod 2 ^ 64"
proof -
  have bl: "unat ls < 2 ^ 32" and bm: "unat ms < 2 ^ 32"
    using unsigned_less [of ls] unsigned_less [of ms] by simp_all
  have ls1: "unat (ls + 1) = (unat ls + 1) mod 2 ^ 32"
    by (simp add: unat_word_ariths)
  have z: "ls + 1 = 0 \<longleftrightarrow> unat (ls + 1) = 0"
    by (simp add: unat_eq_0)
  show ?thesis
  proof (cases "unat ls + 1 = 2 ^ 32")
    case True
    then have c: "ls + 1 = 0" using z ls1 by simp
    from True have e: "unat ls = 2 ^ 32 - 1" by simp
    have "unat (ms + 1) * 2 ^ 32 = ((unat ms + 1) mod 2 ^ 32) * 2 ^ 32"
      by (simp add: unat_word_ariths)
    also have "\<dots> = (unat ms * 2 ^ 32 + (2 ^ 32 - 1) + 1) mod 2 ^ 64"
      by (rule carry_nat)
    finally show ?thesis using c e by simp
  next
    case False
    with bl have lt: "unat ls + 1 < 2 ^ 32" by simp
    then have v: "unat (ls + 1) = unat ls + 1" using ls1 by simp
    then have nz: "ls + 1 \<noteq> 0" using z by simp
    from bm lt have "unat ms * 2 ^ 32 + unat ls + 1 < 2 ^ 64" by simp
    with v nz show ?thesis by simp
  qed
qed

lemma one_word_incr:
  fixes c :: "64 word"
  shows "unat (c + 1) = (unat c + 1) mod 2 ^ 64"
  by (simp add: unat_word_ariths)

lemma keeps_accounting_refl: "keeps_accounting n s s"
  by (simp add: keeps_accounting_def)

lemma keeps_accounting_trans:
  "keeps_accounting n s s1 \<Longrightarrow> keeps_accounting n s1 s2 \<Longrightarrow> keeps_accounting n s s2"
  by (simp add: keeps_accounting_def)

lemma logical_count_cong:
  "count a = count b \<Longrightarrow> mscount a = mscount b \<Longrightarrow> lscount a = lscount b \<Longrightarrow>
   logical_count cfg a = logical_count cfg b"
  by (simp add: logical_count_def)

lemma keeps_accounting_logical:
  "keeps_accounting n s s' \<Longrightarrow>
   logical_count cfg (g_irqvector s' ! n) = logical_count cfg (g_irqvector s ! n)"
  by (simp add: keeps_accounting_def logical_count_def)

lemma observed_nsec_append: "observed_nsec (xs @ ys) = observed_nsec xs @ observed_nsec ys"
  by (simp add: observed_nsec_def map_filter_def)

lemma observed_nsec_none: "\<forall>e\<in>set xs. delta_nsec e = None \<Longrightarrow> observed_nsec xs = []"
  by (simp add: observed_nsec_def map_filter_def filter_empty_conv)

lemma lookup_no_delta: "is_lookup e \<Longrightarrow> delta_nsec e = None"
  by (cases e) simp_all

lemma slot_update_nth:
  "n < length (g_irqvector s) \<Longrightarrow> g_irqvector (slot_update n f s) ! n = f (g_irqvector s ! n)"
  by (simp add: slot_update_def)

lemma slot_update_length: "length (g_irqvector (slot_update n f s)) = length (g_irqvector s)"
  by (simp add: slot_update_def)

lemma INCR_COUNT_off: "\<not> CONFIG_SCHED_IRQMONITOR cfg \<Longrightarrow> INCR_COUNT cfg n s = ([], s)"
  by (simp add: INCR_COUNT_def)

lemma INCR_COUNT_length:
  "length (g_irqvector (snd (INCR_COUNT cfg n s))) = length (g_irqvector s)"
  by (simp add: INCR_COUNT_def Let_def slot_update_length)

lemma INCR_COUNT_time:
  "n < length (g_irqvector s) \<Longrightarrow>
   time (g_irqvector (snd (INCR_COUNT cfg n s)) ! n) = time (g_irqvector s ! n)"
  by (simp add: INCR_COUNT_def Let_def slot_update_nth slot_update_length)

lemma INCR_COUNT_one_word:
  assumes "n < length (g_irqvector s)" "CONFIG_SCHED_IRQMONITOR cfg" "CONFIG_HAVE_LONG_LONG cfg"
  shows "count (g_irqvector (snd (INCR_COUNT cfg n s)) ! n) = count (g_irqvector s ! n) + 1"
  using assms by (simp add: INCR_COUNT_def slot_update_nth)

lemma INCR_COUNT_two_words:
  assumes "n < length (g_irqvector s)" "CONFIG_SCHED_IRQMONITOR cfg" "\<not> CONFIG_HAVE_LONG_LONG cfg"
  shows "lscount (g_irqvector (snd (INCR_COUNT cfg n s)) ! n) = lscount (g_irqvector s ! n) + 1 \<and>
         mscount (g_irqvector (snd (INCR_COUNT cfg n s)) ! n) =
           (if lscount (g_irqvector s ! n) + 1 = 0 then mscount (g_irqvector s ! n) + 1
            else mscount (g_irqvector s ! n))"
  using assms by (simp add: INCR_COUNT_def Let_def slot_update_nth slot_update_length)

lemma INCR_COUNT_logical:
  assumes slot: "n < length (g_irqvector s)" and mon: "CONFIG_SCHED_IRQMONITOR cfg"
  shows "logical_count cfg (g_irqvector (snd (INCR_COUNT cfg n s)) ! n) =
         (logical_count cfg (g_irqvector s ! n) + 1) mod 2 ^ 64"
proof (cases "CONFIG_HAVE_LONG_LONG cfg")
  case True
  with INCR_COUNT_one_word [OF slot mon True] show ?thesis
    by (simp add: logical_count_def one_word_incr)
next
  case False
  with INCR_COUNT_two_words [OF slot mon False]
    two_word_incr [of "lscount (g_irqvector s ! n)" "mscount (g_irqvector s ! n)"]
  show ?thesis
    by (simp add: logical_count_def)
qed

lemma update_time_delta: "observed_nsec (fst (update_time env n d s)) = []"
  by (rule observed_nsec_none) (simp add: update_time_def)

lemma update_time_slot:
  assumes "n < length (g_irqvector s)"
  shows "length (g_irqvector (snd (update_time env n d s))) = length (g_irqvector s) \<and>
         count (g_irqvector (snd (update_time env n d s)) ! n) = count (g_irqvector s ! n) \<and>
         mscount (g_irqvector (snd (update_time env n d s)) ! n) = mscount (g_irqvector s ! n) \<and>
         lscount (g_irqvector (snd (update_time env n d s)) ! n) = lscount (g_irqvector s ! n) \<and>
         time (g_irqvector (snd (update_time env n d s)) ! n) = max (time (g_irqvector s ! n)) d"
  using assms by (simp add: update_time_def slot_update_nth slot_update_length)

lemma entropy_tap_keeps:
  "accounting_untouched env n \<Longrightarrow> keeps_accounting n s (snd (entropy_tap cfg env irq s))"
  by (simp add: entropy_tap_def accounting_untouched_def keeps_accounting_refl)

lemma entropy_tap_delta: "observed_nsec (fst (entropy_tap cfg env irq s)) = []"
  by (simp add: entropy_tap_def observed_nsec_def map_filter_def)

lemma record_running_task_keeps:
  "accounting_untouched env n \<Longrightarrow> keeps_accounting n s (snd (record_running_task env s))"
  by (simp add: record_running_task_def Let_def accounting_untouched_def keeps_accounting_def)

lemma record_running_task_delta: "observed_nsec (fst (record_running_task env s)) = []"
  by (simp add: record_running_task_def Let_def observed_nsec_def map_filter_def)

text \<open>
  What \<open>CALL_VECTOR(n, ...)\<close> leaves of slot \<open>n\<close> when nothing it calls writes the
  accounting fields: the counts as they were, and the time raised to the delta it
  measured.
\<close>

lemma CALL_VECTOR_no_return:
  assumes frame: "accounting_untouched env n"
    and run: "CALL_VECTOR cfg env m v irq ctx a s = (ev, No_return sx)"
  shows "keeps_accounting n s sx \<and> exec_vector env v irq ctx a sx = None"
proof (cases "CONFIG_SCHED_IRQMONITOR cfg")
  case False
  with run show ?thesis
    by (auto simp: CALL_VECTOR_def keeps_accounting_refl split: option.splits)
next
  case mon: True
  show ?thesis
  proof (cases "HAVE_PLATFORM_GETTIME cfg")
    case True
    obtain start s1 where g: "up_critmon_gettime env s = (start, s1)"
      by (cases "up_critmon_gettime env s")
    from frame g have "keeps_accounting n s s1"
      by (auto simp: accounting_untouched_def dest: spec [of _ s])
    with run mon True g show ?thesis
      by (auto simp: CALL_VECTOR_def Let_def split: option.splits prod.splits)
  next
    case False
    obtain start s1 where g: "clock_systimespec env s = (start, s1)"
      by (cases "clock_systimespec env s")
    from frame g have "keeps_accounting n s s1"
      by (auto simp: accounting_untouched_def dest: spec [of _ s])
    with run mon False g show ?thesis
      by (auto simp: CALL_VECTOR_def Let_def split: option.splits prod.splits)
  qed
qed

lemma CALL_VECTOR_returned:
  assumes frame: "accounting_untouched env n" and slot: "n < length (g_irqvector s)"
    and run: "CALL_VECTOR cfg env n v irq ctx a s = (ev, Returned s')"
  shows "length (g_irqvector s') = length (g_irqvector s) \<and>
         count (g_irqvector s' ! n) = count (g_irqvector s ! n) \<and>
         mscount (g_irqvector s' ! n) = mscount (g_irqvector s ! n) \<and>
         lscount (g_irqvector s' ! n) = lscount (g_irqvector s ! n) \<and>
         time (g_irqvector s' ! n) = fold max (observed_nsec ev) (time (g_irqvector s ! n))"
proof (cases "CONFIG_SCHED_IRQMONITOR cfg")
  case False
  with run have "exec_vector env v irq ctx a s = Some s'" "ev = [Call_vector v irq ctx a]"
    by (auto simp: CALL_VECTOR_def split: option.splits)
  with frame show ?thesis
    by (auto simp: accounting_untouched_def keeps_accounting_def observed_nsec_def map_filter_def)
next
  case mon: True
  show ?thesis
  proof (cases "HAVE_PLATFORM_GETTIME cfg")
    case True
    obtain start s1 where g: "up_critmon_gettime env s = (start, s1)"
      by (cases "up_critmon_gettime env s")
    from run mon True g obtain s2 where x: "exec_vector env v irq ctx a s1 = Some s2"
      by (auto simp: CALL_VECTOR_def Let_def split: option.splits prod.splits)
    obtain stop s3 where g2: "up_critmon_gettime env s2 = (stop, s3)"
      by (cases "up_critmon_gettime env s2")
    let ?d = "up_critmon_convert env (stop - start)"
    from run mon True g x g2 have s': "s' = snd (update_time env n (tv_nsec ?d) s3)"
      and ev: "ev = [Call_up_critmon_gettime, Call_vector v irq ctx a, Call_up_critmon_gettime,
                     Call_up_critmon_convert (stop - start) ?d] @ fst (update_time env n (tv_nsec ?d) s3)"
      by (auto simp: CALL_VECTOR_def Let_def split: prod.splits)
    from frame g have k1: "keeps_accounting n s s1"
      by (auto simp: accounting_untouched_def dest: spec [of _ s])
    from frame x have k2: "keeps_accounting n s1 s2"
      by (auto simp: accounting_untouched_def)
    from frame g2 have k3: "keeps_accounting n s2 s3"
      by (auto simp: accounting_untouched_def dest: spec [of _ s2])
    from k1 k2 k3 have k: "keeps_accounting n s s3"
      by (blast intro: keeps_accounting_trans)
    with slot have "n < length (g_irqvector s3)" by (simp add: keeps_accounting_def)
    from update_time_slot [OF this, of env "tv_nsec ?d"] k s'
    have "length (g_irqvector s') = length (g_irqvector s) \<and>
         count (g_irqvector s' ! n) = count (g_irqvector s ! n) \<and>
         mscount (g_irqvector s' ! n) = mscount (g_irqvector s ! n) \<and>
         lscount (g_irqvector s' ! n) = lscount (g_irqvector s ! n) \<and>
         time (g_irqvector s' ! n) = max (time (g_irqvector s ! n)) (tv_nsec ?d)"
      by (simp add: keeps_accounting_def)
    moreover have "observed_nsec ev = [tv_nsec ?d]"
      unfolding ev observed_nsec_append update_time_delta
      by (simp add: observed_nsec_def map_filter_def)
    ultimately show ?thesis by (simp add: max.commute)
  next
    case False
    obtain start s1 where g: "clock_systimespec env s = (start, s1)"
      by (cases "clock_systimespec env s")
    from run mon False g obtain s2 where x: "exec_vector env v irq ctx a s1 = Some s2"
      by (auto simp: CALL_VECTOR_def Let_def split: option.splits prod.splits)
    obtain stop s3 where g2: "clock_systimespec env s2 = (stop, s3)"
      by (cases "clock_systimespec env s2")
    let ?d = "clock_timespec_subtract env stop start"
    from run mon False g x g2 have s': "s' = snd (update_time env n (tv_nsec ?d) s3)"
      and ev: "ev = [Call_clock_systimespec, Call_vector v irq ctx a, Call_clock_systimespec,
                     Call_clock_timespec_subtract stop start ?d] @ fst (update_time env n (tv_nsec ?d) s3)"
      by (auto simp: CALL_VECTOR_def Let_def split: prod.splits)
    from frame g have k1: "keeps_accounting n s s1"
      by (auto simp: accounting_untouched_def dest: spec [of _ s])
    from frame x have k2: "keeps_accounting n s1 s2"
      by (auto simp: accounting_untouched_def)
    from frame g2 have k3: "keeps_accounting n s2 s3"
      by (auto simp: accounting_untouched_def dest: spec [of _ s2])
    from k1 k2 k3 have k: "keeps_accounting n s s3"
      by (blast intro: keeps_accounting_trans)
    with slot have "n < length (g_irqvector s3)" by (simp add: keeps_accounting_def)
    from update_time_slot [OF this, of env "tv_nsec ?d"] k s'
    have "length (g_irqvector s') = length (g_irqvector s) \<and>
         count (g_irqvector s' ! n) = count (g_irqvector s ! n) \<and>
         mscount (g_irqvector s' ! n) = mscount (g_irqvector s ! n) \<and>
         lscount (g_irqvector s' ! n) = lscount (g_irqvector s ! n) \<and>
         time (g_irqvector s' ! n) = max (time (g_irqvector s ! n)) (tv_nsec ?d)"
      by (simp add: keeps_accounting_def)
    moreover have "observed_nsec ev = [tv_nsec ?d]"
      unfolding ev observed_nsec_append update_time_delta
      by (simp add: observed_nsec_def map_filter_def)
    ultimately show ?thesis by (simp add: max.commute)
  qed
qed

lemma irq_resolve_delta: "observed_nsec (fst (irq_resolve cfg irq s)) = []"
  using irq_resolve_events [of cfg irq s]
  by (intro observed_nsec_none) (auto dest: lookup_no_delta)

lemma dispatch_no_return_accounting:
  assumes res: "resolves_to cfg irq n" and frame: "accounting_untouched env n"
    and run: "irq_dispatch cfg env irq ctx s = (tr, No_return sx)"
  shows "keeps_accounting n (snd (INCR_COUNT cfg n s)) sx"
proof -
  let ?s1 = "snd (INCR_COUNT cfg n s)"
  from irq_resolve_slot [OF res, of s]
  obtain ev1 v a where R: "irq_resolve cfg irq s = (ev1, (v, a), n, ?s1)"
    by (cases "snd (load_vector n (irq_unexpected_isr, NULL) s)") simp
  obtain ev2 s2 where T: "entropy_tap cfg env irq ?s1 = (ev2, s2)"
    by (cases "entropy_tap cfg env irq ?s1")
  obtain ev3 r where C: "CALL_VECTOR cfg env n v irq ctx a s2 = (ev3, r)"
    by (cases "CALL_VECTOR cfg env n v irq ctx a s2")
  from entropy_tap_keeps [OF frame, of ?s1 cfg irq] T have k1: "keeps_accounting n ?s1 s2"
    by simp
  show ?thesis
  proof (cases r)
    case (Returned s3)
    with irq_dispatch_returned [OF R T, of ctx ev3 s3] C run show ?thesis by simp
  next
    case (No_return sy)
    with irq_dispatch_no_return [OF R T, of ctx ev3 sy] C run have "sy = sx" by simp
    with CALL_VECTOR_no_return [OF frame, of cfg n v irq ctx a s2 ev3 sx] C No_return
    have "keeps_accounting n s2 sx" by simp
    with k1 show ?thesis by (rule keeps_accounting_trans)
  qed
qed

lemma dispatch_returned_accounting:
  assumes res: "resolves_to cfg irq n" and slot: "n < length (g_irqvector s)"
    and frame: "accounting_untouched env n"
    and run: "irq_dispatch cfg env irq ctx s = (tr, Returned s')"
  shows "length (g_irqvector s') = length (g_irqvector s) \<and>
         count (g_irqvector s' ! n) = count (g_irqvector (snd (INCR_COUNT cfg n s)) ! n) \<and>
         mscount (g_irqvector s' ! n) = mscount (g_irqvector (snd (INCR_COUNT cfg n s)) ! n) \<and>
         lscount (g_irqvector s' ! n) = lscount (g_irqvector (snd (INCR_COUNT cfg n s)) ! n) \<and>
         time (g_irqvector s' ! n) = fold max (observed_nsec tr) (time (g_irqvector s ! n))"
proof -
  let ?s1 = "snd (INCR_COUNT cfg n s)"
  from irq_resolve_slot [OF res, of s]
  obtain ev1 v a where R: "irq_resolve cfg irq s = (ev1, (v, a), n, ?s1)"
    by (cases "snd (load_vector n (irq_unexpected_isr, NULL) s)") simp
  obtain ev2 s2 where T: "entropy_tap cfg env irq ?s1 = (ev2, s2)"
    by (cases "entropy_tap cfg env irq ?s1")
  obtain ev3 r where C: "CALL_VECTOR cfg env n v irq ctx a s2 = (ev3, r)"
    by (cases "CALL_VECTOR cfg env n v irq ctx a s2")
  have d1: "observed_nsec ev1 = []" using irq_resolve_delta [of cfg irq s] R by simp
  have d2: "observed_nsec ev2 = []" using entropy_tap_delta [of cfg env irq ?s1] T by simp
  from entropy_tap_keeps [OF frame, of ?s1 cfg irq] T have k1: "keeps_accounting n ?s1 s2"
    by simp
  have l1: "length (g_irqvector ?s1) = length (g_irqvector s)"
    by (rule INCR_COUNT_length)
  have t1: "time (g_irqvector ?s1 ! n) = time (g_irqvector s ! n)"
    using slot by (rule INCR_COUNT_time)
  from k1 l1 slot have slot2: "n < length (g_irqvector s2)"
    by (simp add: keeps_accounting_def)
  show ?thesis
  proof (cases r)
    case (No_return sy)
    with irq_dispatch_no_return [OF R T, of ctx ev3 sy] C run show ?thesis by simp
  next
    case (Returned s3)
    with irq_dispatch_returned [OF R T, of ctx ev3 s3] C run
    have tr: "tr = ev1 @ ev2 @ ev3 @ fst (record_running_task env s3)"
      and s': "s' = snd (record_running_task env s3)" by simp_all
    from CALL_VECTOR_returned [OF frame slot2, of cfg v irq ctx a ev3 s3] C Returned
    have c: "length (g_irqvector s3) = length (g_irqvector s2)"
      "count (g_irqvector s3 ! n) = count (g_irqvector s2 ! n)"
      "mscount (g_irqvector s3 ! n) = mscount (g_irqvector s2 ! n)"
      "lscount (g_irqvector s3 ! n) = lscount (g_irqvector s2 ! n)"
      "time (g_irqvector s3 ! n) = fold max (observed_nsec ev3) (time (g_irqvector s2 ! n))"
      by simp_all
    have k4: "keeps_accounting n s3 s'"
      unfolding s' using frame by (rule record_running_task_keeps)
    have obs: "observed_nsec tr = observed_nsec ev3"
      unfolding tr by (simp add: observed_nsec_append d1 d2 record_running_task_delta)
    from c k1 k4 l1 t1 obs show ?thesis
      by (simp add: keeps_accounting_def)
  qed
qed

lemma fold_max_ge: "(t::int) \<le> fold max xs t"
proof (induction xs arbitrary: t)
  case Nil
  show ?case by simp
next
  case (Cons x xs)
  have "t \<le> max x t" by simp
  also have "\<dots> \<le> fold max xs (max x t)" by (rule Cons.IH)
  finally show ?case by simp
qed

lemma logical_count_bound: "logical_count cfg v < 2 ^ 64"
proof -
  have c: "unat (count v) < 2 ^ 64" and m: "unat (mscount v) < 2 ^ 32"
    and l: "unat (lscount v) < 2 ^ 32"
    using unsigned_less [of "count v", where ?'a = nat]
      unsigned_less [of "mscount v", where ?'a = nat]
      unsigned_less [of "lscount v", where ?'a = nat]
    by simp_all
  from m have "unat (mscount v) \<le> 2 ^ 32 - 1" by simp
  then have "unat (mscount v) * 2 ^ 32 \<le> (2 ^ 32 - 1) * 2 ^ 32" by (rule mult_le_mono1)
  with l have "unat (mscount v) * 2 ^ 32 + unat (lscount v) < 2 ^ 64" by simp
  with c show ?thesis by (simp add: logical_count_def)
qed

lemma dispatch_step_logical:
  assumes res: "resolves_to cfg irq n" and slot: "n < length (g_irqvector s)"
    and frame: "accounting_untouched env n"
    and run: "irq_dispatch cfg env irq ctx s = (tr, Returned s')"
  shows "logical_count cfg (g_irqvector s' ! n) =
         (if CONFIG_SCHED_IRQMONITOR cfg
          then (logical_count cfg (g_irqvector s ! n) + 1) mod 2 ^ 64
          else logical_count cfg (g_irqvector s ! n))"
proof -
  from dispatch_returned_accounting [OF res slot frame run]
  have "logical_count cfg (g_irqvector s' ! n) =
        logical_count cfg (g_irqvector (snd (INCR_COUNT cfg n s)) ! n)"
    by (intro logical_count_cong) simp_all
  then show ?thesis
    using INCR_COUNT_logical [OF slot, of cfg] by (simp add: INCR_COUNT_off)
qed

lemma dispatch_all_accounting:
  assumes all: "\<forall>ic\<in>set ics. resolves_to cfg (fst ic) n"
    and slot: "n < length (g_irqvector s)"
    and frame: "accounting_untouched env n"
    and run: "dispatch_all cfg env ics s = (tr, Returned s')"
  shows "length (g_irqvector s') = length (g_irqvector s) \<and>
         logical_count cfg (g_irqvector s' ! n) =
           (if CONFIG_SCHED_IRQMONITOR cfg
            then (logical_count cfg (g_irqvector s ! n) + length ics) mod 2 ^ 64
            else logical_count cfg (g_irqvector s ! n)) \<and>
         time (g_irqvector s' ! n) = fold max (observed_nsec tr) (time (g_irqvector s ! n))"
  using all slot run
proof (induction ics arbitrary: s tr)
  case Nil
  with logical_count_bound [of cfg "g_irqvector s ! n"] show ?case
    by (simp add: observed_nsec_def map_filter_def)
next
  case (Cons ic ics)
  obtain tr1 r1 where d: "irq_dispatch cfg env (fst ic) (snd ic) s = (tr1, r1)"
    by (cases "irq_dispatch cfg env (fst ic) (snd ic) s")
  from Cons.prems(3) d obtain s1 where r1: "r1 = Returned s1"
    by (cases r1) simp_all
  obtain tr2 r2 where d2: "dispatch_all cfg env ics s1 = (tr2, r2)"
    by (cases "dispatch_all cfg env ics s1")
  from Cons.prems(3) d r1 d2 have tr: "tr = tr1 @ tr2" and r2: "r2 = Returned s'"
    by simp_all
  from Cons.prems(1) have res: "resolves_to cfg (fst ic) n"
    and rest: "\<forall>ic\<in>set ics. resolves_to cfg (fst ic) n" by simp_all
  from d r1 have run1: "irq_dispatch cfg env (fst ic) (snd ic) s = (tr1, Returned s1)" by simp
  from dispatch_returned_accounting [OF res Cons.prems(2) frame run1]
  have len1: "length (g_irqvector s1) = length (g_irqvector s)"
    and time1: "time (g_irqvector s1 ! n) = fold max (observed_nsec tr1) (time (g_irqvector s ! n))"
    by simp_all
  from len1 Cons.prems(2) have slot1: "n < length (g_irqvector s1)" by simp
  from d2 r2 have run2: "dispatch_all cfg env ics s1 = (tr2, Returned s')" by simp
  note ih = Cons.IH [OF rest slot1 run2]
  note lc1 = dispatch_step_logical [OF res Cons.prems(2) frame run1]
  have "(((logical_count cfg (g_irqvector s ! n) + 1) mod 2 ^ 64) + length ics) mod 2 ^ 64 =
        (logical_count cfg (g_irqvector s ! n) + length (ic # ics)) mod 2 ^ 64"
    by (simp add: mod_add_left_eq)
  with ih lc1 len1 time1 tr show ?case
    by (simp add: observed_nsec_append)
qed

lemma dispatch_states_time_sorted:
  assumes all: "\<forall>ic\<in>set ics. resolves_to cfg (fst ic) n"
    and slot: "n < length (g_irqvector s)"
    and frame: "accounting_untouched env n"
  shows "sorted (map (\<lambda>x. time (g_irqvector x ! n)) (s # dispatch_states cfg env ics s))"
  using all slot
proof (induction ics arbitrary: s)
  case Nil
  show ?case by simp
next
  case (Cons ic ics)
  obtain tr1 r1 where d: "irq_dispatch cfg env (fst ic) (snd ic) s = (tr1, r1)"
    by (cases "irq_dispatch cfg env (fst ic) (snd ic) s")
  show ?case
  proof (cases r1)
    case (No_return sx)
    with d show ?thesis by simp
  next
    case (Returned s1)
    from Cons.prems(1) have res: "resolves_to cfg (fst ic) n"
      and rest: "\<forall>ic\<in>set ics. resolves_to cfg (fst ic) n" by simp_all
    from d Returned have run1: "irq_dispatch cfg env (fst ic) (snd ic) s = (tr1, Returned s1)" by simp
    from dispatch_returned_accounting [OF res Cons.prems(2) frame run1]
    have len1: "length (g_irqvector s1) = length (g_irqvector s)"
      and time1: "time (g_irqvector s1 ! n) = fold max (observed_nsec tr1) (time (g_irqvector s ! n))"
      by simp_all
    from len1 Cons.prems(2) have slot1: "n < length (g_irqvector s1)" by simp
    from time1 have le: "time (g_irqvector s ! n) \<le> time (g_irqvector s1 ! n)"
      by (simp add: fold_max_ge)
    from Cons.IH [OF rest slot1]
    have "sorted (map (\<lambda>x. time (g_irqvector x ! n)) (s1 # dispatch_states cfg env ics s1))" .
    with le d Returned show ?thesis by (simp del: sorted_wrt.simps add: sorted2 split: prod.splits) 
  qed
qed

lemma dispatch_states_last:
  "dispatch_all cfg env ics s = (tr, Returned s') \<Longrightarrow>
   last (s # dispatch_states cfg env ics s) = s' \<and>
   length (dispatch_states cfg env ics s) = length ics"
proof (induction ics arbitrary: s tr)
  case Nil
  then show ?case by simp
next
  case (Cons ic ics)
  obtain tr1 r1 where d: "irq_dispatch cfg env (fst ic) (snd ic) s = (tr1, r1)"
    by (cases "irq_dispatch cfg env (fst ic) (snd ic) s")
  from Cons.prems d obtain s1 where r1: "r1 = Returned s1"
    by (cases r1) simp_all
  obtain tr2 r2 where d2: "dispatch_all cfg env ics s1 = (tr2, r2)"
    by (cases "dispatch_all cfg env ics s1")
  from Cons.prems d r1 d2 have "dispatch_all cfg env ics s1 = (tr2, Returned s')"
    by simp
  from Cons.IH [OF this] d r1 show ?case by simp
qed

subsection \<open>The sentinel and the entropy hook\<close>

text \<open>
  Claim C10. Whenever the dispatcher calls the sentinel in place of a registered
  handler, that is, when \<open>irq\<close> is not below \<open>NR_IRQS\<close>, when its map entry is not a
  table index, or when its slot has a null handler, the only routine called is
  \<open>irq_unexpected_isr\<close> and its third argument is \<open>NULL\<close>.
\<close>

theorem sentinel_gets_null_arg:
  assumes "\<not> unat irq < NR_IRQS cfg \<or> unmapped cfg irq \<or>
           (\<exists>n. resolves_to cfg irq n \<and> n < length (g_irqvector s) \<and>
                handler (g_irqvector s ! n) = None)"
  shows "filter is_Call_vector (fst (irq_dispatch cfg env irq ctx s)) =
           [Call_vector irq_unexpected_isr irq ctx NULL]"
proof -
  have "\<exists>ev1 n s1. irq_resolve cfg irq s = (ev1, (irq_unexpected_isr, NULL), n, s1)"
    using assms
  proof (elim disjE exE conjE)
    assume "\<not> unat irq < NR_IRQS cfg"
    then show ?thesis by (simp add: irq_resolve_out)
  next
    assume "unmapped cfg irq"
    then show ?thesis by (simp add: irq_resolve_unmapped)
  next
    fix n
    assume "resolves_to cfg irq n" and "handler (g_irqvector s ! n) = None"
    then show ?thesis by (simp add: irq_resolve_slot load_vector_def)
  qed
  then obtain ev1 n s1 where "irq_resolve cfg irq s = (ev1, (irq_unexpected_isr, NULL), n, s1)"
    by blast
  then show ?thesis by (rule calls_of_dispatch)
qed

theorem sentinel_gets_null_arg_witness:
  "\<not> unat (42 :: c_int) < NR_IRQS direct16 \<and>
   filter is_Call_vector (fst (irq_dispatch direct16 tick_env 42 9 state16)) =
     [Call_vector irq_unexpected_isr 42 9 0] \<and>
   unmapped minimal16 8 \<and>
   filter is_Call_vector (fst (irq_dispatch minimal16 tick_env 8 9 state4)) =
     [Call_vector irq_unexpected_isr 8 9 0] \<and>
   resolves_to direct16 3 3 \<and> 3 < length (g_irqvector state16) \<and>
   handler (g_irqvector state16 ! 3) = None \<and>
   filter is_Call_vector (fst (irq_dispatch direct16 tick_env 3 9 state16)) =
     [Call_vector irq_unexpected_isr 3 9 0]"
proof -
  have a: "\<not> unat (42 :: c_int) < NR_IRQS direct16"
    by (simp add: direct16_def)
  have b: "unmapped minimal16 8"
    by (simp add: unmapped_def minimal16_def direct16_def)
  have c: "resolves_to direct16 3 3" "3 < length (g_irqvector state16)"
    "handler (g_irqvector state16 ! 3) = None"
    by (simp_all add: resolves_to_def scenario16_defs minimal16_def)
  from c have c': "\<exists>n. resolves_to direct16 3 n \<and> n < length (g_irqvector state16) \<and>
      handler (g_irqvector state16 ! n) = None" by blast
  from a have "filter is_Call_vector (fst (irq_dispatch direct16 tick_env 42 9 state16)) =
     [Call_vector irq_unexpected_isr 42 9 NULL]"
    by (intro sentinel_gets_null_arg) simp
  moreover from b have "filter is_Call_vector (fst (irq_dispatch minimal16 tick_env 8 9 state4)) =
     [Call_vector irq_unexpected_isr 8 9 NULL]"
    by (intro sentinel_gets_null_arg) simp
  moreover from c' have "filter is_Call_vector (fst (irq_dispatch direct16 tick_env 3 9 state16)) =
     [Call_vector irq_unexpected_isr 3 9 NULL]"
    by (intro sentinel_gets_null_arg) simp
  ultimately show ?thesis using a b c by (simp add: NULL_def)
qed

lemma CALL_VECTOR_entry:
  "case exec_vector env v irq ctx a (vector_entry cfg env s) of
     None \<Rightarrow> snd (CALL_VECTOR cfg env n v irq ctx a s) = No_return (vector_entry cfg env s)
   | Some s2 \<Rightarrow> returned (snd (CALL_VECTOR cfg env n v irq ctx a s))"
  by (auto simp: CALL_VECTOR_def vector_entry_def Let_def split: option.splits prod.splits)

text \<open>
  Claim C9. With \<open>CONFIG_CRYPTO_RANDOM_POOL_COLLECT_IRQ_RANDOMNESS\<close>, for every \<open>irq\<close>
  and in every memory, a dispatch is the table lookup, then the hook
  \<open>add_irq_randomness\<close> applied once, to the \<open>irq\<close> the dispatcher was given (not the
  table index) and to the memory the lookup left, then \<open>CALL_VECTOR\<close> started in the
  memory the hook returned, then the running-task update. So the routine, handler or
  sentinel, is entered only after the hook: in the memory the hook returned, or that
  memory after the first reading of the clock. In the trace, the calls of the hook and
  of service routines are one \<open>add_irq_randomness(irq)\<close> followed by the one routine.
\<close>

theorem entropy_hook_once_before_vector:
  assumes rnd: "CONFIG_CRYPTO_RANDOM_POOL_COLLECT_IRQ_RANDOMNESS cfg"
  shows "\<exists>ev1 v a n s1 ev3 r.
           irq_resolve cfg irq s = (ev1, (v, a), n, s1) \<and>
           CALL_VECTOR cfg env n v irq ctx a (add_irq_randomness env irq s1) = (ev3, r) \<and>
           irq_dispatch cfg env irq ctx s =
             (case r of
                No_return sx \<Rightarrow> (ev1 @ Call_add_irq_randomness irq # ev3, No_return sx)
              | Returned s3 \<Rightarrow>
                  (ev1 @ Call_add_irq_randomness irq # ev3 @
                     [Store_running_task (this_cpu env s3) (this_task env s3)],
                   Returned (snd (record_running_task env s3)))) \<and>
           filter (\<lambda>e. is_Call_add_irq_randomness e \<or> is_Call_vector e)
                 (fst (irq_dispatch cfg env irq ctx s)) =
               [Call_add_irq_randomness irq, Call_vector v irq ctx a] \<and>
           (case exec_vector env v irq ctx a
                   (vector_entry cfg env (add_irq_randomness env irq s1)) of
              None \<Rightarrow> snd (irq_dispatch cfg env irq ctx s) =
                        No_return (vector_entry cfg env (add_irq_randomness env irq s1))
            | Some s2 \<Rightarrow> returned (snd (irq_dispatch cfg env irq ctx s)))"
proof -
  let ?P = "\<lambda>e. is_Call_add_irq_randomness e \<or> is_Call_vector e"
  let ?h = "add_irq_randomness env irq"
  obtain ev1 v a n s1 where R: "irq_resolve cfg irq s = (ev1, (v, a), n, s1)"
    by (cases "irq_resolve cfg irq s") auto
  from rnd have T: "entropy_tap cfg env irq s1 = ([Call_add_irq_randomness irq], ?h s1)"
    by (simp add: entropy_tap_def)
  obtain ev3 r where C: "CALL_VECTOR cfg env n v irq ctx a (?h s1) = (ev3, r)"
    by (cases "CALL_VECTOR cfg env n v irq ctx a (?h s1)")
  have D: "irq_dispatch cfg env irq ctx s =
             (case r of
                No_return sx \<Rightarrow> (ev1 @ Call_add_irq_randomness irq # ev3, No_return sx)
              | Returned s3 \<Rightarrow>
                  (ev1 @ Call_add_irq_randomness irq # ev3 @
                     [Store_running_task (this_cpu env s3) (this_task env s3)],
                   Returned (snd (record_running_task env s3))))"
  proof (cases r)
    case (No_return sx)
    with irq_dispatch_no_return [OF R T, of ctx ev3 sx] C show ?thesis by simp
  next
    case (Returned s3)
    with irq_dispatch_returned [OF R T, of ctx ev3 s3] C show ?thesis
      by (simp add: record_running_task_def Let_def)
  qed
  have np: "\<And>e. is_probe n e \<Longrightarrow> \<not> ?P e"
    subgoal for e by (cases e) simp_all done
  have nt: "\<And>e. is_Store_running_task e \<Longrightarrow> \<not> ?P e"
    subgoal for e by (cases e) simp_all done
  have nl: "\<And>e. is_lookup e \<Longrightarrow> \<not> ?P e"
    subgoal for e by (cases e) simp_all done
  from irq_resolve_events [of cfg irq s] R nl have "filter ?P ev1 = []"
    by (auto simp: filter_empty_conv)
  moreover from T have "filter ?P (fst (entropy_tap cfg env irq s1)) = [Call_add_irq_randomness irq]"
    by simp
  ultimately have F: "filter ?P (fst (irq_dispatch cfg env irq ctx s)) =
      [Call_add_irq_randomness irq, Call_vector v irq ctx a]"
    using filter_dispatch [of cfg irq s ev1 v a n s1 ?P ctx env, OF R np nt] by simp
  have E: "case exec_vector env v irq ctx a (vector_entry cfg env (?h s1)) of
              None \<Rightarrow> snd (irq_dispatch cfg env irq ctx s) =
                        No_return (vector_entry cfg env (?h s1))
            | Some s2 \<Rightarrow> returned (snd (irq_dispatch cfg env irq ctx s))"
    using CALL_VECTOR_entry [where env = env and v = v and irq = irq and ctx = ctx and a = a
        and cfg = cfg and s = "?h s1" and n = n] C D
    by (cases r) (auto split: option.splits)
  from R C D F E show ?thesis by blast
qed

theorem entropy_hook_once_before_vector_witness:
  "CONFIG_CRYPTO_RANDOM_POOL_COLLECT_IRQ_RANDOMNESS minimal16 \<and>
   world state4 = 100 \<and>
   world (add_irq_randomness pool_env 7 state4) = 7100 \<and>
   irq_resolve minimal16 7 state4 =
     ([Load_irqmap 7, Load F_handler 2, Load F_handler 2, Load F_arg 2,
       Load F_count 2, Store F_count 2],
      (Isr 1, 77), 2, snd (INCR_COUNT minimal16 2 state4)) \<and>
   fst (irq_dispatch minimal16 pool_env 7 9 state4) =
     [Load_irqmap 7, Load F_handler 2, Load F_handler 2, Load F_arg 2,
      Load F_count 2, Store F_count 2, Call_add_irq_randomness 7,
      Call_up_critmon_gettime, Call_vector (Isr 1) 7 9 77, Call_up_critmon_gettime,
      Call_up_critmon_convert 250 \<lparr>tv_sec = 0, tv_nsec = 250\<rparr>,
      Load F_time 2, Store F_time 2, Store_running_task 0 7350] \<and>
   world (final_state (snd (irq_dispatch minimal16 pool_env 7 9 state4))) = 7350 \<and>
   g_running_tasks (final_state (snd (irq_dispatch minimal16 pool_env 7 9 state4))) = [7350] \<and>
   filter (\<lambda>e. is_Call_add_irq_randomness e \<or> is_Call_vector e)
     (fst (irq_dispatch minimal16 pool_env 7 9 state4)) =
   [Call_add_irq_randomness 7, Call_vector (Isr 1) 7 9 77]"
  using entropy_hook_once_before_vector [of minimal16 7 state4 pool_env 9]
  by (simp add: model_defs scenario16_defs minimal16_def state4_def table4_def pool_env_def)

subsection \<open>The running-task update\<close>

lemma CALL_VECTOR_stuck:
  assumes "CALL_VECTOR cfg env m v irq ctx a s = (ev, No_return sx)"
  shows "exec_vector env v irq ctx a sx = None \<and> ev \<noteq> [] \<and> last ev = Call_vector v irq ctx a"
proof (cases "CONFIG_SCHED_IRQMONITOR cfg")
  case False
  with assms show ?thesis
    by (auto simp: CALL_VECTOR_def split: option.splits)
next
  case mon: True
  show ?thesis
  proof (cases "HAVE_PLATFORM_GETTIME cfg")
    case True
    with assms mon show ?thesis
      by (auto simp: CALL_VECTOR_def Let_def split: option.splits prod.splits)
  next
    case False
    with assms mon show ?thesis
      by (auto simp: CALL_VECTOR_def Let_def split: option.splits prod.splits)
  qed
qed

text \<open>
  Claim C7. For every \<open>irq\<close>, in range or not, mapped or not, registered or not, and in
  every build: a dispatch that returns ends with the assignment
  \<open>g_running_tasks[this_cpu()] = this_task()\<close>. It is the last event of the trace, and
  \<open>this_cpu()\<close> and \<open>this_task()\<close> are read in the memory \<open>s3\<close> that \<open>CALL_VECTOR\<close>
  left, after the routine returned; when the CPU index is within the array, the
  dispatch returns \<open>s3\<close> with that one entry replaced. A dispatch does not return only
  when the routine it called did not: then the call is the last event.
\<close>

theorem dispatch_ends_with_running_task_store:
  "(\<forall>tr s'. irq_dispatch cfg env irq ctx s = (tr, Returned s') \<longrightarrow>
      (\<exists>ev n v a s2 ev3 s3.
          CALL_VECTOR cfg env n v irq ctx a s2 = (ev3, Returned s3) \<and>
          tr = ev @ ev3 @ [Store_running_task (this_cpu env s3) (this_task env s3)] \<and>
          (this_cpu env s3 < length (g_running_tasks s3) \<longrightarrow>
             s' = s3\<lparr>g_running_tasks :=
                       (g_running_tasks s3)[this_cpu env s3 := this_task env s3]\<rparr>))) \<and>
   (\<forall>tr sx. irq_dispatch cfg env irq ctx s = (tr, No_return sx) \<longrightarrow>
      (\<exists>v a. exec_vector env v irq ctx a sx = None \<and> last tr = Call_vector v irq ctx a))"
proof -
  obtain ev1 v a n s1 where R: "irq_resolve cfg irq s = (ev1, (v, a), n, s1)"
    by (cases "irq_resolve cfg irq s") auto
  obtain ev2 s2 where T: "entropy_tap cfg env irq s1 = (ev2, s2)"
    by (cases "entropy_tap cfg env irq s1")
  obtain ev3 r where C: "CALL_VECTOR cfg env n v irq ctx a s2 = (ev3, r)"
    by (cases "CALL_VECTOR cfg env n v irq ctx a s2")
  show ?thesis
  proof (cases r)
    case (Returned s3)
    from irq_dispatch_returned [OF R T, of ctx ev3 s3] C Returned
    have d: "irq_dispatch cfg env irq ctx s =
        (ev1 @ ev2 @ ev3 @ [Store_running_task (this_cpu env s3) (this_task env s3)],
         Returned (snd (record_running_task env s3)))"
      by (simp add: record_running_task_def Let_def)
    have st: "this_cpu env s3 < length (g_running_tasks s3) \<longrightarrow>
        snd (record_running_task env s3) =
        s3\<lparr>g_running_tasks := (g_running_tasks s3)[this_cpu env s3 := this_task env s3]\<rparr>"
      by (simp add: record_running_task_def Let_def)
    have "\<exists>ev n v a s2 ev3' s3'.
          CALL_VECTOR cfg env n v irq ctx a s2 = (ev3', Returned s3') \<and>
          ev1 @ ev2 @ ev3 @ [Store_running_task (this_cpu env s3) (this_task env s3)] =
            ev @ ev3' @ [Store_running_task (this_cpu env s3') (this_task env s3')] \<and>
          (this_cpu env s3' < length (g_running_tasks s3') \<longrightarrow>
             snd (record_running_task env s3) = s3'\<lparr>g_running_tasks :=
                       (g_running_tasks s3')[this_cpu env s3' := this_task env s3']\<rparr>)"
    proof (intro exI conjI)
      show "CALL_VECTOR cfg env n v irq ctx a s2 = (ev3, Returned s3)"
        using C Returned by simp
      show "ev1 @ ev2 @ ev3 @ [Store_running_task (this_cpu env s3) (this_task env s3)] =
            (ev1 @ ev2) @ ev3 @ [Store_running_task (this_cpu env s3) (this_task env s3)]"
        by simp
      show "this_cpu env s3 < length (g_running_tasks s3) \<longrightarrow>
        snd (record_running_task env s3) =
        s3\<lparr>g_running_tasks := (g_running_tasks s3)[this_cpu env s3 := this_task env s3]\<rparr>"
        by (rule st)
    qed
    with d show ?thesis by simp
  next
    case (No_return sx)
    from irq_dispatch_no_return [OF R T, of ctx ev3 sx] C No_return
    have d: "irq_dispatch cfg env irq ctx s = (ev1 @ ev2 @ ev3, No_return sx)" by simp
    from CALL_VECTOR_stuck [of cfg env n v irq ctx a s2 ev3 sx] C No_return
    have "exec_vector env v irq ctx a sx = None" "ev3 \<noteq> []" "last ev3 = Call_vector v irq ctx a"
      by simp_all
    with d show ?thesis by auto
  qed
qed

theorem dispatch_ends_with_running_task_store_witness:
  "(\<exists>tr s'. irq_dispatch direct16 tick_env 42 9 state16 = (tr, Returned s') \<and>
      last tr = Store_running_task 0 200 \<and> g_running_tasks s' = [200]) \<and>
   (\<exists>tr sx. irq_dispatch direct16 tick_env 3 9 state16_stuck = (tr, No_return sx) \<and>
      exec_vector tick_env (Isr 0) 3 9 0 sx = None \<and> last tr = Call_vector (Isr 0) 3 9 0)"
  using dispatch_ends_with_running_task_store [of direct16 tick_env 42 9 state16]
    dispatch_ends_with_running_task_store [of direct16 tick_env 3 9 state16_stuck]
  by (simp add: model_defs scenario16_defs state16_stuck_def)

subsection \<open>A slot without a handler\<close>

lemma tick_env_untouched: "accounting_untouched tick_env n"
  by (auto simp: accounting_untouched_def keeps_accounting_def tick_env_def
      split: xcpt_t.splits if_splits)

text \<open>
  Claim C6. Let \<open>irq\<close> be in range and resolve to an existing slot \<open>n\<close> whose handler is
  null. Then the one routine the dispatch calls is \<open>irq_unexpected_isr(irq, ctx, NULL)\<close>,
  and with \<open>CONFIG_SCHED_IRQMONITOR\<close> the count of slot \<open>n\<close> is one more (as a 64-bit
  value) in the memory the dispatch leaves, whether the sentinel returns or not,
  provided the called functions themselves leave the accounting fields of the slot
  alone.
\<close>

theorem unregistered_slot_calls_sentinel_and_counts:
  assumes res: "resolves_to cfg irq n" and slot: "n < length (g_irqvector s)"
    and null: "handler (g_irqvector s ! n) = None"
  shows "filter is_Call_vector (fst (irq_dispatch cfg env irq ctx s)) =
           [Call_vector irq_unexpected_isr irq ctx NULL] \<and>
         (CONFIG_SCHED_IRQMONITOR cfg \<longrightarrow> accounting_untouched env n \<longrightarrow>
            logical_count cfg (g_irqvector (final_state (snd (irq_dispatch cfg env irq ctx s))) ! n) =
              (logical_count cfg (g_irqvector s ! n) + 1) mod 2 ^ 64)"
proof (intro conjI impI)
  from null have "snd (load_vector n (irq_unexpected_isr, NULL) s) = (irq_unexpected_isr, NULL)"
    by (simp add: load_vector_def)
  with irq_resolve_slot [OF res, of s]
  obtain ev1 s1 where "irq_resolve cfg irq s = (ev1, (irq_unexpected_isr, NULL), n, s1)"
    by simp
  then show "filter is_Call_vector (fst (irq_dispatch cfg env irq ctx s)) =
           [Call_vector irq_unexpected_isr irq ctx NULL]"
    by (rule calls_of_dispatch)
next
  assume mon: "CONFIG_SCHED_IRQMONITOR cfg" and frame: "accounting_untouched env n"
  obtain tr r where d: "irq_dispatch cfg env irq ctx s = (tr, r)"
    by (cases "irq_dispatch cfg env irq ctx s")
  have "logical_count cfg (g_irqvector (final_state r) ! n) =
        logical_count cfg (g_irqvector (snd (INCR_COUNT cfg n s)) ! n)"
  proof (cases r)
    case (Returned s')
    with d have "irq_dispatch cfg env irq ctx s = (tr, Returned s')" by simp
    from dispatch_returned_accounting [OF res slot frame this] Returned
    show ?thesis by (intro logical_count_cong) simp_all
  next
    case (No_return sx)
    with d have "irq_dispatch cfg env irq ctx s = (tr, No_return sx)" by simp
    from dispatch_no_return_accounting [OF res frame this] No_return
    show ?thesis by (simp add: keeps_accounting_logical)
  qed
  with INCR_COUNT_logical [OF slot mon] d
  show "logical_count cfg (g_irqvector (final_state (snd (irq_dispatch cfg env irq ctx s))) ! n) =
              (logical_count cfg (g_irqvector s ! n) + 1) mod 2 ^ 64"
    by simp
qed

theorem unregistered_slot_calls_sentinel_and_counts_witness:
  "resolves_to direct16 3 3 \<and> 3 < length (g_irqvector state16) \<and>
   handler (g_irqvector state16 ! 3) = None \<and>
   CONFIG_SCHED_IRQMONITOR direct16 \<and> accounting_untouched tick_env 3 \<and>
   logical_count direct16 (g_irqvector state16 ! 3) = 0 \<and>
   filter is_Call_vector (fst (irq_dispatch direct16 tick_env 3 9 state16)) =
     [Call_vector irq_unexpected_isr 3 9 0] \<and>
   logical_count direct16
     (g_irqvector (final_state (snd (irq_dispatch direct16 tick_env 3 9 state16))) ! 3) = 1"
proof -
  have r: "resolves_to direct16 3 3" and l: "3 < length (g_irqvector state16)"
    and h: "handler (g_irqvector state16 ! 3) = None"
    and m: "CONFIG_SCHED_IRQMONITOR direct16"
    and z: "logical_count direct16 (g_irqvector state16 ! 3) = 0"
    by (simp_all add: resolves_to_def logical_count_def scenario16_defs)
  from unregistered_slot_calls_sentinel_and_counts [OF r l h, of tick_env 9] m z
    tick_env_untouched [of 3] r l h
  show ?thesis by (simp add: NULL_def)
qed

subsection \<open>The count is written before the call\<close>

lemma INCR_COUNT_stores:
  assumes "CONFIG_SCHED_IRQMONITOR cfg"
  shows "filter (\<lambda>e. is_count_store e \<or> is_Call_vector e) (fst (INCR_COUNT cfg n s)) \<noteq> [] \<and>
         set (filter (\<lambda>e. is_count_store e \<or> is_Call_vector e) (fst (INCR_COUNT cfg n s)))
           \<subseteq> {Store F_count n, Store F_lscount n, Store F_mscount n}"
  using assms by (auto simp: INCR_COUNT_def Let_def)

lemma load_vector_no_store:
  "filter (\<lambda>e. is_count_store e \<or> is_Call_vector e) (fst (load_vector n va s)) = []"
  by (simp add: load_vector_def split: option.splits)

text \<open>
  Claim C8. In a dispatch that performs a counter update (a build with
  \<open>CONFIG_SCHED_IRQMONITOR\<close>, an \<open>irq\<close> that resolves to a slot \<open>n\<close>), the writes of
  count fields and the calls of service routines in the trace are: first the writes,
  at least one and all of them to the count fields of slot \<open>n\<close>, then the one call.
  So every count write comes strictly before the handler or sentinel is entered. And a
  routine that never returns is accounted: it was entered in a memory in which the
  count of slot \<open>n\<close> is already one more, as far as the entropy hook and the clock
  leave the accounting fields alone.
\<close>

theorem count_store_precedes_vector_call:
  assumes mon: "CONFIG_SCHED_IRQMONITOR cfg" and res: "resolves_to cfg irq n"
    and slot: "n < length (g_irqvector s)"
  shows "(\<exists>cs v a.
            filter (\<lambda>e. is_count_store e \<or> is_Call_vector e)
              (fst (irq_dispatch cfg env irq ctx s)) = cs @ [Call_vector v irq ctx a] \<and>
            cs \<noteq> [] \<and>
            set cs \<subseteq> {Store F_count n, Store F_lscount n, Store F_mscount n}) \<and>
         (accounting_untouched env n \<longrightarrow>
            (\<forall>tr sx. irq_dispatch cfg env irq ctx s = (tr, No_return sx) \<longrightarrow>
               logical_count cfg (g_irqvector sx ! n) =
                 (logical_count cfg (g_irqvector s ! n) + 1) mod 2 ^ 64))"
proof (intro conjI impI allI)
  let ?P = "\<lambda>e. is_count_store e \<or> is_Call_vector e"
  let ?cs = "filter ?P (fst (INCR_COUNT cfg n s))"
  from irq_resolve_slot [OF res, of s]
  obtain ev1 v a s1 where R: "irq_resolve cfg irq s = (ev1, (v, a), n, s1)"
    and ev1: "ev1 = (if CONFIG_ARCH_MINIMAL_VECTORTABLE cfg then [Load_irqmap (unat irq)] else []) @
        fst (load_vector n (irq_unexpected_isr, NULL) s) @ fst (INCR_COUNT cfg n s)"
    by (cases "snd (load_vector n (irq_unexpected_isr, NULL) s)") simp
  have f1: "filter ?P ev1 = ?cs"
    unfolding ev1 by (simp add: load_vector_no_store)
  have np: "\<And>e. is_probe n e \<Longrightarrow> \<not> ?P e"
    subgoal for e by (cases e) auto done
  have nt: "\<And>e. is_Store_running_task e \<Longrightarrow> \<not> ?P e"
    subgoal for e by (cases e) simp_all done
  have f2: "filter ?P (fst (entropy_tap cfg env irq s1)) = []"
    by (simp add: entropy_tap_def)
  from filter_dispatch [of cfg irq s ev1 v a n s1 ?P ctx env, OF R np nt] f1 f2
  have "filter ?P (fst (irq_dispatch cfg env irq ctx s)) = ?cs @ [Call_vector v irq ctx a]"
    by simp
  with INCR_COUNT_stores [OF mon, of n s]
  show "\<exists>cs v a.
            filter ?P (fst (irq_dispatch cfg env irq ctx s)) = cs @ [Call_vector v irq ctx a] \<and>
            cs \<noteq> [] \<and>
            set cs \<subseteq> {Store F_count n, Store F_lscount n, Store F_mscount n}"
    by blast
next
  fix tr sx
  assume frame: "accounting_untouched env n"
    and run: "irq_dispatch cfg env irq ctx s = (tr, No_return sx)"
  from dispatch_no_return_accounting [OF res frame run]
  have "logical_count cfg (g_irqvector sx ! n) =
        logical_count cfg (g_irqvector (snd (INCR_COUNT cfg n s)) ! n)"
    by (rule keeps_accounting_logical)
  with INCR_COUNT_logical [OF slot mon]
  show "logical_count cfg (g_irqvector sx ! n) =
          (logical_count cfg (g_irqvector s ! n) + 1) mod 2 ^ 64"
    by simp
qed

theorem count_store_precedes_vector_call_witness:
  "CONFIG_SCHED_IRQMONITOR two_word16 \<and> resolves_to two_word16 5 5 \<and>
   5 < length (g_irqvector state16_carry) \<and>
   filter (\<lambda>e. is_count_store e \<or> is_Call_vector e)
     (fst (irq_dispatch two_word16 tick_env 5 9 state16_carry)) =
     [Store F_lscount 5, Store F_mscount 5, Call_vector (Isr 1) 5 9 0] \<and>
   CONFIG_SCHED_IRQMONITOR direct16 \<and> resolves_to direct16 3 3 \<and>
   3 < length (g_irqvector state16_stuck) \<and> accounting_untouched tick_env 3 \<and>
   (\<exists>tr sx. irq_dispatch direct16 tick_env 3 9 state16_stuck = (tr, No_return sx) \<and>
      logical_count direct16 (g_irqvector state16_stuck ! 3) = 0 \<and>
      logical_count direct16 (g_irqvector sx ! 3) = 1)"
proof -
  have m1: "CONFIG_SCHED_IRQMONITOR two_word16" and r1: "resolves_to two_word16 5 5"
    and l1: "5 < length (g_irqvector state16_carry)"
    by (simp_all add: resolves_to_def scenario16_defs two_word16_def state16_carry_def state16_stuck_def)
  have m2: "CONFIG_SCHED_IRQMONITOR direct16" and r2: "resolves_to direct16 3 3"
    and l2: "3 < length (g_irqvector state16_stuck)"
    by (simp_all add: resolves_to_def scenario16_defs two_word16_def state16_carry_def state16_stuck_def)
  have e1: "filter (\<lambda>e. is_count_store e \<or> is_Call_vector e)
     (fst (irq_dispatch two_word16 tick_env 5 9 state16_carry)) =
     [Store F_lscount 5, Store F_mscount 5, Call_vector (Isr 1) 5 9 0]"
    using count_store_precedes_vector_call [OF m1 r1 l1, of tick_env 9]
    by (simp add: model_defs scenario16_defs two_word16_def state16_carry_def state16_stuck_def)
  have e2: "\<exists>tr sx. irq_dispatch direct16 tick_env 3 9 state16_stuck = (tr, No_return sx) \<and>
      logical_count direct16 (g_irqvector state16_stuck ! 3) = 0 \<and>
      logical_count direct16 (g_irqvector sx ! 3) = 1"
    using count_store_precedes_vector_call [OF m2 r2 l2, of tick_env 9]
    by (simp add: model_defs scenario16_defs two_word16_def state16_carry_def state16_stuck_def logical_count_def)
  from m1 r1 l1 m2 r2 l2 e1 e2 tick_env_untouched [of 3] show ?thesis by simp
qed

subsection \<open>The count after a sequence of dispatches\<close>

text \<open>
  Claim C4. With \<open>CONFIG_SCHED_IRQMONITOR\<close>, let each of the \<open>K\<close> dispatches of a
  sequence reach \<open>INCR_COUNT\<close> of the same existing slot \<open>n\<close>, let every dispatch
  return, and let the called functions leave the accounting fields of the slot alone.
  Then the count of the slot, read as the number \<open>count\<close> or
  \<open>mscount * 2^32 + lscount\<close>, ends at its initial value plus \<open>K\<close> as a 64-bit
  value, that is modulo \<open>2^64\<close>, and so at exactly the initial value plus \<open>K\<close> when
  that is below \<open>2^64\<close>; this is so in both representations. In the two-word
  representation one dispatch from \<open>lscount = 0xFFFFFFFF\<close> and \<open>mscount = m\<close> leaves
  \<open>lscount = 0\<close> and \<open>mscount = m + 1\<close> (a 32-bit sum).
\<close>

theorem count_advances_by_number_of_dispatches:
  assumes mon: "CONFIG_SCHED_IRQMONITOR cfg"
    and all: "\<forall>ic\<in>set ics. resolves_to cfg (fst ic) n"
    and slot: "n < length (g_irqvector s)"
    and frame: "accounting_untouched env n"
    and run: "dispatch_all cfg env ics s = (tr, Returned s')"
  shows "logical_count cfg (g_irqvector s' ! n) =
           (logical_count cfg (g_irqvector s ! n) + length ics) mod 2 ^ 64 \<and>
         (logical_count cfg (g_irqvector s ! n) + length ics < 2 ^ 64 \<longrightarrow>
            logical_count cfg (g_irqvector s' ! n) =
              logical_count cfg (g_irqvector s ! n) + length ics) \<and>
         (\<not> CONFIG_HAVE_LONG_LONG cfg \<and> length ics = 1 \<and>
          lscount (g_irqvector s ! n) = 0xFFFFFFFF \<longrightarrow>
            lscount (g_irqvector s' ! n) = 0 \<and>
            mscount (g_irqvector s' ! n) = mscount (g_irqvector s ! n) + 1)"
proof -
  from dispatch_all_accounting [OF all slot frame run] mon
  have m: "logical_count cfg (g_irqvector s' ! n) =
           (logical_count cfg (g_irqvector s ! n) + length ics) mod 2 ^ 64"
    by simp
  have carry: "lscount (g_irqvector s' ! n) = 0 \<and>
        mscount (g_irqvector s' ! n) = mscount (g_irqvector s ! n) + 1"
    if a: "\<not> CONFIG_HAVE_LONG_LONG cfg \<and> length ics = 1 \<and>
          lscount (g_irqvector s ! n) = 0xFFFFFFFF"
  proof -
    from a obtain ic where ics: "ics = [ic]"
      by (cases ics) simp_all
    obtain tr1 r1 where d: "irq_dispatch cfg env (fst ic) (snd ic) s = (tr1, r1)"
      by (cases "irq_dispatch cfg env (fst ic) (snd ic) s")
    from run ics d have "r1 = Returned s'"
      by (cases r1) simp_all
    with d have run1: "irq_dispatch cfg env (fst ic) (snd ic) s = (tr1, Returned s')" by simp
    from all ics have res: "resolves_to cfg (fst ic) n" by simp
    from a have two: "\<not> CONFIG_HAVE_LONG_LONG cfg" by simp
    from dispatch_returned_accounting [OF res slot frame run1]
      INCR_COUNT_two_words [OF slot mon two] a
    show ?thesis by simp
  qed
  from m carry show ?thesis by simp
qed

theorem count_advances_by_number_of_dispatches_witness:
  "CONFIG_SCHED_IRQMONITOR direct16 \<and> resolves_to direct16 5 5 \<and>
   5 < length (g_irqvector state16) \<and> accounting_untouched tick_env 5 \<and>
   logical_count direct16 (g_irqvector state16 ! 5) = 0 \<and>
   (\<exists>tr s'. dispatch_all direct16 tick_env [(5, 9), (5, 8)] state16 = (tr, Returned s') \<and>
      logical_count direct16 (g_irqvector s' ! 5) = 2) \<and>
   CONFIG_SCHED_IRQMONITOR two_word16 \<and> \<not> CONFIG_HAVE_LONG_LONG two_word16 \<and>
   resolves_to two_word16 5 5 \<and> 5 < length (g_irqvector state16_carry) \<and>
   lscount (g_irqvector state16_carry ! 5) = 0xFFFFFFFF \<and>
   mscount (g_irqvector state16_carry ! 5) = 0 \<and>
   logical_count two_word16 (g_irqvector state16_carry ! 5) = 2 ^ 32 - 1 \<and>
   (\<exists>tr s'. dispatch_all two_word16 tick_env [(5, 9)] state16_carry = (tr, Returned s') \<and>
      lscount (g_irqvector s' ! 5) = 0 \<and> mscount (g_irqvector s' ! 5) = 1 \<and>
      logical_count two_word16 (g_irqvector s' ! 5) = 2 ^ 32)"
proof -
  have m1: "CONFIG_SCHED_IRQMONITOR direct16" and r1: "resolves_to direct16 5 5"
    and l1: "5 < length (g_irqvector state16)"
    and z1: "logical_count direct16 (g_irqvector state16 ! 5) = 0"
    by (simp_all add: resolves_to_def logical_count_def scenario16_defs two_word16_def state16_carry_def)
  have a1: "\<forall>ic\<in>set [(5, 9), (5, 8)]. resolves_to direct16 (fst ic) 5"
    using r1 by simp
  obtain tr1 s1 where d1: "dispatch_all direct16 tick_env [(5, 9), (5, 8)] state16 = (tr1, Returned s1)"
    by (simp add: model_defs scenario16_defs two_word16_def state16_carry_def)
  from count_advances_by_number_of_dispatches [OF m1 a1 l1 tick_env_untouched d1] z1
  have c1: "logical_count direct16 (g_irqvector s1 ! 5) = 2" by simp
  have m2: "CONFIG_SCHED_IRQMONITOR two_word16" and t2: "\<not> CONFIG_HAVE_LONG_LONG two_word16"
    and r2: "resolves_to two_word16 5 5" and l2: "5 < length (g_irqvector state16_carry)"
    and ls2: "lscount (g_irqvector state16_carry ! 5) = 0xFFFFFFFF"
    and ms2: "mscount (g_irqvector state16_carry ! 5) = 0"
    and z2: "logical_count two_word16 (g_irqvector state16_carry ! 5) = 2 ^ 32 - 1"
    by (simp_all add: resolves_to_def logical_count_def scenario16_defs two_word16_def state16_carry_def)
  have a2: "\<forall>ic\<in>set [(5, 9)]. resolves_to two_word16 (fst ic) 5"
    using r2 by simp
  obtain tr2 s2 where d2: "dispatch_all two_word16 tick_env [(5, 9)] state16_carry = (tr2, Returned s2)"
    by (simp add: model_defs scenario16_defs two_word16_def state16_carry_def)
  from count_advances_by_number_of_dispatches [OF m2 a2 l2 tick_env_untouched d2] t2 ls2 ms2 z2
  have c2: "lscount (g_irqvector s2 ! 5) = 0 \<and> mscount (g_irqvector s2 ! 5) = 1 \<and>
      logical_count two_word16 (g_irqvector s2 ! 5) = 2 ^ 32" by simp
  from m1 r1 l1 z1 d1 c1 m2 t2 r2 l2 ls2 ms2 z2 d2 c2 tick_env_untouched [of 5]
  show ?thesis by simp
qed

text \<open>
  The sum is one of 64-bit values: in exact arithmetic the claim fails where the count
  wraps. From \<open>lscount = mscount = 0xFFFFFFFF\<close>, the value \<open>2^64 - 1\<close>, one dispatch
  leaves both words 0, the value 0 and not \<open>2^64\<close>; \<open>mscount\<close> is \<open>m + 1\<close> only
  modulo \<open>2^32\<close>.
\<close>

theorem count_wraps_at_64_bits_counterexample:
  "CONFIG_SCHED_IRQMONITOR two_word16 \<and> \<not> CONFIG_HAVE_LONG_LONG two_word16 \<and>
   resolves_to two_word16 5 5 \<and> 5 < length (g_irqvector state16_full) \<and>
   returned (snd (dispatch_all two_word16 tick_env [(5, 9)] state16_full)) \<and>
   lscount (g_irqvector state16_full ! 5) = 0xFFFFFFFF \<and>
   mscount (g_irqvector state16_full ! 5) = 0xFFFFFFFF \<and>
   logical_count two_word16 (g_irqvector state16_full ! 5) = 2 ^ 64 - 1 \<and>
   lscount (g_irqvector (final_state (snd (dispatch_all two_word16 tick_env [(5, 9)] state16_full))) ! 5) = 0 \<and>
   mscount (g_irqvector (final_state (snd (dispatch_all two_word16 tick_env [(5, 9)] state16_full))) ! 5) = 0 \<and>
   logical_count two_word16
     (g_irqvector (final_state (snd (dispatch_all two_word16 tick_env [(5, 9)] state16_full))) ! 5) = 0 \<and>
   logical_count two_word16
     (g_irqvector (final_state (snd (dispatch_all two_word16 tick_env [(5, 9)] state16_full))) ! 5) \<noteq>
   logical_count two_word16 (g_irqvector state16_full ! 5) + length [(5 :: c_int, 9 :: voidptr)]"
  by (simp add: model_defs scenario16_defs two_word16_def state16_full_def resolves_to_def logical_count_def)

subsection \<open>The longest time seen\<close>

lemma CALL_VECTOR_deltas:
  assumes run: "CALL_VECTOR cfg env n v irq ctx a s = (ev, Returned s')"
  shows "length (observed_nsec ev) = (if CONFIG_SCHED_IRQMONITOR cfg then 1 else 0)"
proof (cases "CONFIG_SCHED_IRQMONITOR cfg")
  case False
  with run show ?thesis
    by (auto simp: CALL_VECTOR_def observed_nsec_def map_filter_def split: option.splits)
next
  case mon: True
  show ?thesis
  proof (cases "HAVE_PLATFORM_GETTIME cfg")
    case True
    obtain start s1 where g: "up_critmon_gettime env s = (start, s1)"
      by (cases "up_critmon_gettime env s")
    from run mon True g obtain s2 where x: "exec_vector env v irq ctx a s1 = Some s2"
      by (auto simp: CALL_VECTOR_def Let_def split: option.splits prod.splits)
    obtain stop s3 where g2: "up_critmon_gettime env s2 = (stop, s3)"
      by (cases "up_critmon_gettime env s2")
    let ?d = "up_critmon_convert env (stop - start)"
    from run mon True g x g2
    have ev: "ev = [Call_up_critmon_gettime, Call_vector v irq ctx a, Call_up_critmon_gettime,
                Call_up_critmon_convert (stop - start) ?d] @ fst (update_time env n (tv_nsec ?d) s3)"
      by (auto simp: CALL_VECTOR_def Let_def split: prod.splits)
    have "observed_nsec ev = [tv_nsec ?d]"
      unfolding ev observed_nsec_append update_time_delta
      by (simp add: observed_nsec_def map_filter_def)
    with mon show ?thesis by simp
  next
    case False
    obtain start s1 where g: "clock_systimespec env s = (start, s1)"
      by (cases "clock_systimespec env s")
    from run mon False g obtain s2 where x: "exec_vector env v irq ctx a s1 = Some s2"
      by (auto simp: CALL_VECTOR_def Let_def split: option.splits prod.splits)
    obtain stop s3 where g2: "clock_systimespec env s2 = (stop, s3)"
      by (cases "clock_systimespec env s2")
    let ?d = "clock_timespec_subtract env stop start"
    from run mon False g x g2
    have ev: "ev = [Call_clock_systimespec, Call_vector v irq ctx a, Call_clock_systimespec,
                Call_clock_timespec_subtract stop start ?d] @ fst (update_time env n (tv_nsec ?d) s3)"
      by (auto simp: CALL_VECTOR_def Let_def split: prod.splits)
    have "observed_nsec ev = [tv_nsec ?d]"
      unfolding ev observed_nsec_append update_time_delta
      by (simp add: observed_nsec_def map_filter_def)
    with mon show ?thesis by simp
  qed
qed

lemma dispatch_deltas:
  assumes run: "irq_dispatch cfg env irq ctx s = (tr, Returned s')"
  shows "length (observed_nsec tr) = (if CONFIG_SCHED_IRQMONITOR cfg then 1 else 0)"
proof -
  obtain ev1 v a n s1 where R: "irq_resolve cfg irq s = (ev1, (v, a), n, s1)"
    by (cases "irq_resolve cfg irq s") auto
  obtain ev2 s2 where T: "entropy_tap cfg env irq s1 = (ev2, s2)"
    by (cases "entropy_tap cfg env irq s1")
  obtain ev3 r where C: "CALL_VECTOR cfg env n v irq ctx a s2 = (ev3, r)"
    by (cases "CALL_VECTOR cfg env n v irq ctx a s2")
  have d1: "observed_nsec ev1 = []" using irq_resolve_delta [of cfg irq s] R by simp
  have d2: "observed_nsec ev2 = []" using entropy_tap_delta [of cfg env irq s1] T by simp
  show ?thesis
  proof (cases r)
    case (No_return sx)
    with irq_dispatch_no_return [OF R T, of ctx ev3 sx] C run show ?thesis by simp
  next
    case (Returned s3)
    with C have C': "CALL_VECTOR cfg env n v irq ctx a s2 = (ev3, Returned s3)" by simp
    from irq_dispatch_returned [OF R T C'] run
    have "tr = ev1 @ ev2 @ ev3 @ fst (record_running_task env s3)" by simp
    then have "observed_nsec tr = observed_nsec ev3"
      by (simp add: observed_nsec_append d1 d2 record_running_task_delta)
    with CALL_VECTOR_deltas [OF C'] show ?thesis by simp
  qed
qed

lemma dispatch_all_deltas:
  "dispatch_all cfg env ics s = (tr, Returned s') \<Longrightarrow>
   length (observed_nsec tr) = (if CONFIG_SCHED_IRQMONITOR cfg then length ics else 0)"
proof (induction ics arbitrary: s tr)
  case Nil
  then show ?case by (simp add: observed_nsec_def map_filter_def)
next
  case (Cons ic ics)
  obtain tr1 r1 where d: "irq_dispatch cfg env (fst ic) (snd ic) s = (tr1, r1)"
    by (cases "irq_dispatch cfg env (fst ic) (snd ic) s")
  from Cons.prems d obtain s1 where r1: "r1 = Returned s1"
    by (cases r1) simp_all
  obtain tr2 r2 where d2: "dispatch_all cfg env ics s1 = (tr2, r2)"
    by (cases "dispatch_all cfg env ics s1")
  from Cons.prems d r1 d2 have tr: "tr = tr1 @ tr2" and r2: "r2 = Returned s'"
    by simp_all
  from d r1 have "irq_dispatch cfg env (fst ic) (snd ic) s = (tr1, Returned s1)" by simp
  note one = dispatch_deltas [OF this]
  from d2 r2 have "dispatch_all cfg env ics s1 = (tr2, Returned s')" by simp
  note ih = Cons.IH [OF this]
  from one ih tr show ?case by (simp add: observed_nsec_append)
qed

text \<open>
  Claim C5. With \<open>CONFIG_SCHED_IRQMONITOR\<close>, let every dispatch of a sequence resolve
  to the same existing slot \<open>n\<close> and return, and let the called functions leave the
  accounting fields of the slot alone. Then the \<open>time\<close> of the slot never decreases
  from one dispatch to the next (the list of its values, before the first dispatch and
  after each one, is sorted), every dispatch measures one delta, and at the end
  \<open>time\<close> is the maximum of its initial value and the \<open>tv_nsec\<close> of every delta
  measured in the sequence; \<open>tv_sec\<close> plays no part.
\<close>

theorem time_is_running_maximum:
  assumes mon: "CONFIG_SCHED_IRQMONITOR cfg"
    and all: "\<forall>ic\<in>set ics. resolves_to cfg (fst ic) n"
    and slot: "n < length (g_irqvector s)"
    and frame: "accounting_untouched env n"
    and run: "dispatch_all cfg env ics s = (tr, Returned s')"
  shows "sorted (map (\<lambda>x. time (g_irqvector x ! n)) (s # dispatch_states cfg env ics s)) \<and>
         last (s # dispatch_states cfg env ics s) = s' \<and>
         length (observed_nsec tr) = length ics \<and>
         time (g_irqvector s' ! n) = Max (set (time (g_irqvector s ! n) # observed_nsec tr))"
proof (intro conjI)
  show "length (observed_nsec tr) = length ics"
    using dispatch_all_deltas [OF run] mon by simp
  show "sorted (map (\<lambda>x. time (g_irqvector x ! n)) (s # dispatch_states cfg env ics s))"
    using all slot frame by (rule dispatch_states_time_sorted)
  show "last (s # dispatch_states cfg env ics s) = s'"
    using dispatch_states_last [OF run] by simp
  from dispatch_all_accounting [OF all slot frame run]
  have "time (g_irqvector s' ! n) = fold max (observed_nsec tr) (time (g_irqvector s ! n))"
    by simp
  then show "time (g_irqvector s' ! n) = Max (set (time (g_irqvector s ! n) # observed_nsec tr))"
    by (simp only: Max.set_eq_fold)
qed

lemma slow_then_fast_untouched: "accounting_untouched slow_then_fast n"
  by (auto simp: accounting_untouched_def keeps_accounting_def slow_then_fast_def tick_env_def)

theorem time_is_running_maximum_witness:
  "CONFIG_SCHED_IRQMONITOR direct16 \<and> resolves_to direct16 5 5 \<and>
   5 < length (g_irqvector state16) \<and> accounting_untouched slow_then_fast 5 \<and>
   time (g_irqvector state16 ! 5) = 0 \<and>
   map (\<lambda>x. time (g_irqvector x ! 5))
     (state16 # dispatch_states direct16 slow_then_fast [(5, 9), (5, 8), (5, 7)] state16) =
     [0, 250, 250, 250] \<and>
   (\<exists>tr s'. dispatch_all direct16 slow_then_fast [(5, 9), (5, 8), (5, 7)] state16 = (tr, Returned s') \<and>
      observed_nsec tr = [250, 100, 100] \<and> time (g_irqvector s' ! 5) = 250)"
proof -
  have m: "CONFIG_SCHED_IRQMONITOR direct16" and r: "resolves_to direct16 5 5"
    and l: "5 < length (g_irqvector state16)"
    and z: "time (g_irqvector state16 ! 5) = 0"
    by (simp_all add: resolves_to_def scenario16_defs slow_then_fast_def)
  have a: "\<forall>ic\<in>set [(5, 9), (5, 8), (5, 7)]. resolves_to direct16 (fst ic) 5"
    using r by simp
  obtain tr s' where d: "dispatch_all direct16 slow_then_fast [(5, 9), (5, 8), (5, 7)] state16 = (tr, Returned s')"
    and o: "observed_nsec tr = [250, 100, 100]"
    by (simp add: model_defs scenario16_defs slow_then_fast_def observed_nsec_def map_filter_def)
  have st: "map (\<lambda>x. time (g_irqvector x ! 5))
     (state16 # dispatch_states direct16 slow_then_fast [(5, 9), (5, 8), (5, 7)] state16) =
     [0, 250, 250, 250]"
    by (simp add: model_defs scenario16_defs slow_then_fast_def)
  from time_is_running_maximum [OF m a l slow_then_fast_untouched d] z o
  have "time (g_irqvector s' ! 5) = 250" by simp
  with m r l z d o st slow_then_fast_untouched [of 5] show ?thesis by simp
qed

subsection \<open>Interrupts out of range or unmapped, with monitoring\<close>

text \<open>
  Claim C2, at the input of scenario 2 of the specification: a build with
  \<open>CONFIG_SCHED_IRQMONITOR\<close>, 16 interrupts, a table of 16 slots, and \<open>irq = 42\<close>.
  The sentinel is called with \<open>NULL\<close> and no count field is touched, but after the
  sentinel returns \<open>CALL_VECTOR(42, ...)\<close> reads \<open>g_irqvector[42].time\<close> and, the
  delta being larger than what it finds there, writes it: a time field is read and
  written, past the end of the table.
\<close>

theorem out_of_range_irq_updates_time:
  "\<not> unat (42 :: c_int) < NR_IRQS direct16 \<and> CONFIG_SCHED_IRQMONITOR direct16 \<and>
   length (g_irqvector state16) = 16 \<and>
   fst (irq_dispatch direct16 tick_env 42 9 state16) =
     [Call_add_irq_randomness 42, Call_up_critmon_gettime,
      Call_vector irq_unexpected_isr 42 9 0, Call_up_critmon_gettime,
      Call_up_critmon_convert 100 \<lparr>tv_sec = 0, tv_nsec = 100\<rparr>,
      Load F_time 42, Store F_time 42, Store_running_task 0 200]"
  by (simp add: model_defs scenario16_defs)

text \<open>
  Claim C3, at the input of scenario 3 of the specification: the minimal vector table
  with four slots and \<open>g_irqmap[8] = CONFIG_ARCH_NUSER_INTERRUPTS = 4\<close>, in a build with
  \<open>CONFIG_SCHED_IRQMONITOR\<close>. The handler, argument and count of no slot are touched
  and the sentinel is called, but \<open>CALL_VECTOR(4, ...)\<close> then reads and writes
  \<open>g_irqvector[4].time\<close>, one slot past the end of the table.
\<close>

theorem unmapped_irq_updates_time:
  "unmapped minimal16 8 \<and> CONFIG_SCHED_IRQMONITOR minimal16 \<and>
   length (g_irqvector state4) = 4 \<and>
   fst (irq_dispatch minimal16 tick_env 8 9 state4) =
     [Load_irqmap 8, Call_add_irq_randomness 8, Call_up_critmon_gettime,
      Call_vector irq_unexpected_isr 8 9 0, Call_up_critmon_gettime,
      Call_up_critmon_convert 100 \<lparr>tv_sec = 0, tv_nsec = 100\<rparr>,
      Load F_time 4, Store F_time 4, Store_running_task 0 200]"
  by (simp add: model_defs scenario16_defs minimal16_def state4_def table4_def unmapped_def)

text \<open>
  The same for every input: in a build with \<open>CONFIG_SCHED_IRQMONITOR\<close>, a dispatch
  that returns reads the \<open>time\<close> field at the index it computed, also when \<open>irq\<close> is
  out of range or unmapped and the index is not one of a slot. Without
  \<open>CONFIG_SCHED_IRQMONITOR\<close> such a dispatch touches no field of any slot.
\<close>

lemma CALL_VECTOR_loads_time:
  assumes mon: "CONFIG_SCHED_IRQMONITOR cfg"
    and run: "CALL_VECTOR cfg env n v irq ctx a s = (ev, Returned s')"
  shows "Load F_time n \<in> set ev"
proof (cases "HAVE_PLATFORM_GETTIME cfg")
  case True
  with mon run show ?thesis
    by (auto simp: CALL_VECTOR_def update_time_def Let_def split: option.splits prod.splits if_splits)
next
  case False
  with mon run show ?thesis
    by (auto simp: CALL_VECTOR_def update_time_def Let_def split: option.splits prod.splits if_splits)
qed

lemma stray_irq_loads_time:
  assumes mon: "CONFIG_SCHED_IRQMONITOR cfg"
    and stray: "\<not> unat irq < NR_IRQS cfg \<and> n = unat irq \<or>
                unmapped cfg irq \<and> n = g_irqmap cfg ! unat irq"
    and run: "irq_dispatch cfg env irq ctx s = (tr, Returned s')"
  shows "Load F_time n \<in> set tr"
proof -
  from stray have R: "\<exists>ev1. irq_resolve cfg irq s = (ev1, (irq_unexpected_isr, NULL), n, s)"
    by (auto simp: irq_resolve_out irq_resolve_unmapped)
  then obtain ev1 where R: "irq_resolve cfg irq s = (ev1, (irq_unexpected_isr, NULL), n, s)" ..
  obtain ev2 s2 where T: "entropy_tap cfg env irq s = (ev2, s2)"
    by (cases "entropy_tap cfg env irq s")
  obtain ev3 r where C: "CALL_VECTOR cfg env n irq_unexpected_isr irq ctx NULL s2 = (ev3, r)"
    by (cases "CALL_VECTOR cfg env n irq_unexpected_isr irq ctx NULL s2")
  show ?thesis
  proof (cases r)
    case (No_return sx)
    with irq_dispatch_no_return [OF R T, of ctx ev3 sx] C run show ?thesis by simp
  next
    case (Returned s3)
    with C have C': "CALL_VECTOR cfg env n irq_unexpected_isr irq ctx NULL s2 = (ev3, Returned s3)"
      by simp
    from irq_dispatch_returned [OF R T C'] run have "tr = ev1 @ ev2 @ ev3 @ fst (record_running_task env s3)"
      by simp
    with CALL_VECTOR_loads_time [OF mon C'] show ?thesis by simp
  qed
qed

lemma stray_irq_unmonitored:
  assumes mon: "\<not> CONFIG_SCHED_IRQMONITOR cfg"
    and stray: "\<not> unat irq < NR_IRQS cfg \<or> unmapped cfg irq"
  shows "filter is_slot_access (fst (irq_dispatch cfg env irq ctx s)) = []"
proof -
  from stray have "\<exists>ev1 n. irq_resolve cfg irq s = (ev1, (irq_unexpected_isr, NULL), n, s) \<and>
      filter is_slot_access ev1 = []"
    by (auto simp: irq_resolve_out irq_resolve_unmapped)
  then obtain ev1 n where R: "irq_resolve cfg irq s = (ev1, (irq_unexpected_isr, NULL), n, s)"
    and f1: "filter is_slot_access ev1 = []" by blast
  obtain ev2 s2 where T: "entropy_tap cfg env irq s = (ev2, s2)"
    by (cases "entropy_tap cfg env irq s")
  then have f2: "filter is_slot_access ev2 = []"
    by (auto simp: entropy_tap_def split: if_splits)
  obtain ev3 r where C: "CALL_VECTOR cfg env n irq_unexpected_isr irq ctx NULL s2 = (ev3, r)"
    by (cases "CALL_VECTOR cfg env n irq_unexpected_isr irq ctx NULL s2")
  with mon have f3: "filter is_slot_access ev3 = []"
    by (auto simp: CALL_VECTOR_def split: option.splits)
  show ?thesis
  proof (cases r)
    case (No_return sx)
    with irq_dispatch_no_return [OF R T, of ctx ev3 sx] C f1 f2 f3 show ?thesis by simp
  next
    case (Returned s3)
    with irq_dispatch_returned [OF R T, of ctx ev3 s3] C f1 f2 f3 show ?thesis
      by (simp add: record_running_task_def Let_def)
  qed
qed

end
